theory Spec2Isabelle
  imports Complex_Main "HOL-Library.Log_Nat"
begin

section \<open>JavaScript Number values\<close>

text \<open>
  Every number in \<^verbatim>\<open>api_integration.js\<close> is a JavaScript Number: an IEEE 754
  binary64 value.  A Number is modelled as \<open>NaN\<close>, one of the two infinities, or a
  finite value carried as the rational it denotes.  The sign of zero is not
  represented: the program never divides, and \<open>-0\<close> and \<open>+0\<close> compare and print alike.
\<close>

datatype jsnum = NaN | NInf | PInf | Fin rat

text \<open>Rounding to an integer, ties to the even neighbour (the IEEE default mode).\<close>

definition round_half_even :: "rat \<Rightarrow> int" where
  "round_half_even r =
     (let f = \<lfloor>r\<rfloor>; d = r - of_int f
      in if d < 1 / 2 then f else if 1 / 2 < d then f + 1 else if even f then f else f + 1)"

text \<open>
  \<open>ilog2 x\<close> is the exponent \<open>e\<close> with \<open>2 powi e \<le> x < 2 powi (e + 1)\<close> for a
  positive rational, computed from the bit lengths of numerator and denominator.
\<close>

definition ilog2 :: "rat \<Rightarrow> int" where
  "ilog2 x =
     (let (a, b) = quotient_of x; k = bitlen a - bitlen b
      in if 2 powi k \<le> x then k else k - 1)"

text \<open>
  The binary64 exponent of a value (clamped below at \<open>-1022\<close>, where the
  subnormal range starts), the spacing of the binary64 grid around it (53
  significant bits), and rounding to that grid.
\<close>

definition expo :: "rat \<Rightarrow> int" where
  "expo x = (if x = 0 then - 1022 else max (ilog2 \<bar>x\<bar>) (- 1022))"

definition ulp :: "rat \<Rightarrow> rat" where
  "ulp x = 2 powi (expo x - 52)"

definition rq :: "rat \<Rightarrow> rat \<Rightarrow> rat" where
  "rq q x = of_int (round_half_even (x / q)) * q"

definition rd :: "rat \<Rightarrow> rat" where
  "rd x = rq (ulp x) x"

text \<open>
  \<open>fl x\<close> is the Number nearest to the exact value \<open>x\<close>: the result of every
  arithmetic operation and the value of every numeric literal.  A result that
  rounds to magnitude \<open>2 powi 1024\<close> overflows to an infinity.
\<close>

definition fl :: "rat \<Rightarrow> jsnum" where
  "fl x = (let y = rd x
           in if 2 powi 1024 \<le> y then PInf else if y \<le> - (2 powi 1024) then NInf else Fin y)"

text \<open>
  The operators \<^verbatim>\<open>*\<close>, \<^verbatim>\<open>+\<close>, \<^verbatim>\<open>-\<close>, \<^verbatim>\<open>/\<close>, \<^verbatim>\<open>>\<close> and \<^verbatim>\<open><=\<close> on Numbers
  (\<^verbatim>\<open>a >= b\<close> is \<open>js_le b a\<close>, \<^verbatim>\<open>a < b\<close> is \<open>js_gt b a\<close>).
\<close>

fun js_mul :: "jsnum \<Rightarrow> jsnum \<Rightarrow> jsnum" where
  "js_mul (Fin a) (Fin b) = fl (a * b)"
| "js_mul NaN _ = NaN"
| "js_mul _ NaN = NaN"
| "js_mul (Fin a) PInf = (if a = 0 then NaN else if 0 < a then PInf else NInf)"
| "js_mul (Fin a) NInf = (if a = 0 then NaN else if 0 < a then NInf else PInf)"
| "js_mul PInf (Fin b) = (if b = 0 then NaN else if 0 < b then PInf else NInf)"
| "js_mul NInf (Fin b) = (if b = 0 then NaN else if 0 < b then NInf else PInf)"
| "js_mul PInf PInf = PInf"
| "js_mul NInf NInf = PInf"
| "js_mul PInf NInf = NInf"
| "js_mul NInf PInf = NInf"

fun js_add :: "jsnum \<Rightarrow> jsnum \<Rightarrow> jsnum" where
  "js_add (Fin a) (Fin b) = fl (a + b)"
| "js_add NaN _ = NaN"
| "js_add _ NaN = NaN"
| "js_add PInf NInf = NaN"
| "js_add NInf PInf = NaN"
| "js_add PInf _ = PInf"
| "js_add _ PInf = PInf"
| "js_add NInf _ = NInf"
| "js_add _ NInf = NInf"

fun js_sub :: "jsnum \<Rightarrow> jsnum \<Rightarrow> jsnum" where
  "js_sub (Fin a) (Fin b) = fl (a - b)"
| "js_sub NaN _ = NaN"
| "js_sub _ NaN = NaN"
| "js_sub PInf PInf = NaN"
| "js_sub NInf NInf = NaN"
| "js_sub PInf _ = PInf"
| "js_sub _ PInf = NInf"
| "js_sub NInf _ = NInf"
| "js_sub _ NInf = PInf"

text \<open>
  Division.  The sign of a zero divisor is not represented; it is taken as \<open>+0\<close>.
  The program divides by 16 and by 62.5 only.
\<close>

fun js_div :: "jsnum \<Rightarrow> jsnum \<Rightarrow> jsnum" where
  "js_div (Fin a) (Fin b) =
     (if b = 0 then (if a = 0 then NaN else if 0 < a then PInf else NInf) else fl (a / b))"
| "js_div NaN _ = NaN"
| "js_div _ NaN = NaN"
| "js_div (Fin a) PInf = Fin 0"
| "js_div (Fin a) NInf = Fin 0"
| "js_div PInf (Fin b) = (if 0 \<le> b then PInf else NInf)"
| "js_div NInf (Fin b) = (if 0 \<le> b then NInf else PInf)"
| "js_div PInf PInf = NaN"
| "js_div PInf NInf = NaN"
| "js_div NInf PInf = NaN"
| "js_div NInf NInf = NaN"

fun js_gt :: "jsnum \<Rightarrow> jsnum \<Rightarrow> bool" where
  "js_gt (Fin a) (Fin b) = (b < a)"
| "js_gt NaN _ = False"
| "js_gt _ NaN = False"
| "js_gt PInf PInf = False"
| "js_gt PInf _ = True"
| "js_gt _ PInf = False"
| "js_gt NInf _ = False"
| "js_gt _ NInf = True"

fun js_le :: "jsnum \<Rightarrow> jsnum \<Rightarrow> bool" where
  "js_le (Fin a) (Fin b) = (a \<le> b)"
| "js_le NaN _ = False"
| "js_le _ NaN = False"
| "js_le NInf _ = True"
| "js_le _ PInf = True"
| "js_le PInf (Fin b) = False"
| "js_le (Fin a) NInf = False"
| "js_le PInf NInf = False"

text \<open>
  \<^verbatim>\<open>Math.round\<close>: the nearest integer, ties towards \<open>+\<infinity>\<close>.  For a binary64
  argument the result is again a binary64 value, so no rounding step follows.
\<close>

fun js_round :: "jsnum \<Rightarrow> jsnum" where
  "js_round (Fin x) = Fin (of_int \<lfloor>x + 1 / 2\<rfloor>)"
| "js_round v = v"

text \<open>
  Reading a property that an object literal does not have gives \<^verbatim>\<open>undefined\<close>
  (\<open>None\<close>); used as a factor, \<^verbatim>\<open>undefined\<close> converts to \<open>NaN\<close>.  Properties
  inherited from \<^verbatim>\<open>Object.prototype\<close> (a key such as \<^verbatim>\<open>constructor\<close>) are
  functions, which convert to \<open>NaN\<close> as well; as texts they are not modelled.
\<close>

definition to_number :: "jsnum option \<Rightarrow> jsnum" where
  "to_number v = (case v of None \<Rightarrow> NaN | Some n \<Rightarrow> n)"

section \<open>The offline estimator \<^verbatim>\<open>calculateDeliveryTime\<close>\<close>

text \<open>
  The four lookup tables of the function.  Integer literals are written as the
  finite value they denote; a decimal literal is the Number nearest to it.
\<close>

definition weatherMultipliers :: "string \<rightharpoonup> jsnum" where
  "weatherMultipliers = map_of
     [(''Clear'', fl 1.0), (''Cloudy'', fl 1.05), (''Hot'', fl 1.1), (''Rain'', fl 1.3),
      (''Heavy Rain'', fl 1.6)]"

definition trafficMultipliers :: "string \<rightharpoonup> jsnum" where
  "trafficMultipliers = map_of
     [(''Low'', fl 1.0), (''Medium'', fl 1.2), (''High'', fl 1.5), (''Very High'', fl 1.8)]"

definition weatherImpacts :: "string \<rightharpoonup> string" where
  "weatherImpacts = map_of
     [(''Clear'', ''Minimal''), (''Cloudy'', ''Low''), (''Hot'', ''Low''),
      (''Rain'', ''Moderate''), (''Heavy Rain'', ''High'')]"

definition trafficImpacts :: "string \<rightharpoonup> string" where
  "trafficImpacts = map_of
     [(''Low'', ''Minimal''), (''Medium'', ''Moderate''), (''High'', ''Significant''),
      (''Very High'', ''Very High'')]"

definition isPeakHour :: "int \<Rightarrow> bool" where
  "isPeakHour hour = (hour \<in> set [12, 13, 14, 19, 20, 21])"

text \<open>The local \<^verbatim>\<open>prepTime\<close>: \<^verbatim>\<open>12 + (items * 2)\<close>.\<close>

definition prepTime :: "jsnum \<Rightarrow> jsnum" where
  "prepTime items = js_add (Fin 12) (js_mul items (Fin 2))"

text \<open>
  The local \<^verbatim>\<open>baseTime\<close> after the two table multiplications, and after the
  peak-hour surcharge.
\<close>

definition adjustedBaseTime :: "jsnum \<Rightarrow> string \<Rightarrow> string \<Rightarrow> jsnum" where
  "adjustedBaseTime distance weather traffic =
     js_mul (js_mul (js_mul distance (Fin 4)) (to_number (weatherMultipliers weather)))
       (to_number (trafficMultipliers traffic))"

definition baseTime :: "jsnum \<Rightarrow> string \<Rightarrow> string \<Rightarrow> int \<Rightarrow> jsnum" where
  "baseTime distance weather traffic hour =
     (if isPeakHour hour then js_mul (adjustedBaseTime distance weather traffic) (fl 1.15)
      else adjustedBaseTime distance weather traffic)"

definition totalTime :: "jsnum \<Rightarrow> string \<Rightarrow> string \<Rightarrow> int \<Rightarrow> jsnum \<Rightarrow> jsnum" where
  "totalTime distance weather traffic hour items =
     js_round (js_add (prepTime items) (baseTime distance weather traffic hour))"

text \<open>
  The confidence starts at 85 and loses 10, 8 and 5 points.  These are small
  integers, on which Number arithmetic is exact, so the value is an \<open>int\<close>.
\<close>

definition heuristicConfidence :: "jsnum \<Rightarrow> string \<Rightarrow> string \<Rightarrow> int" where
  "heuristicConfidence distance weather traffic =
     (let c0 = 85;
          c1 = (if weather = ''Heavy Rain'' then c0 - 10 else c0);
          c2 = (if traffic = ''Very High'' then c1 - 8 else c1)
      in if js_gt distance (Fin 10) then c2 - 5 else c2)"

record estimate =
  time :: jsnum
  confidence :: int
  weatherImpact :: "string option"
  trafficImpact :: "string option"
  distanceFactor :: string
  peakHour :: string

definition calculateDeliveryTime ::
  "jsnum \<Rightarrow> string \<Rightarrow> string \<Rightarrow> int \<Rightarrow> jsnum \<Rightarrow> estimate" where
  "calculateDeliveryTime distance weather traffic hour items =
     \<lparr>time = totalTime distance weather traffic hour items,
      confidence = heuristicConfidence distance weather traffic,
      weatherImpact = weatherImpacts weather,
      trafficImpact = trafficImpacts traffic,
      distanceFactor =
        (if js_gt distance (Fin 7) then ''High''
         else if js_gt distance (Fin 4) then ''Medium'' else ''Low''),
      peakHour = (if isPeakHour hour then ''Yes (+15%)'' else ''No'')\<rparr>"

section \<open>The counter animation \<^verbatim>\<open>animateValue\<close>\<close>

text \<open>
  \<^verbatim>\<open>animateValue(id, start, end, duration)\<close> starts an interval timer.  Each
  callback adds the increment to \<^verbatim>\<open>current\<close>; when \<^verbatim>\<open>current\<close> has reached
  \<^verbatim>\<open>end\<close> it sets \<^verbatim>\<open>current = end\<close> and clears the timer; in either case it then
  writes \<^verbatim>\<open>Math.round(current)\<close> into the element.  \<open>animateValue k\<close> is the state
  after \<open>k\<close> callbacks: the value of \<^verbatim>\<open>current\<close> and whether the timer has been
  cleared.  A timer that is never cleared goes on writing at every callback.
\<close>

definition animateIncrement :: "jsnum \<Rightarrow> jsnum \<Rightarrow> jsnum \<Rightarrow> jsnum" where
  "animateIncrement start endValue duration =
     js_div (js_sub endValue start) (js_div duration (Fin 16))"

fun animateValue :: "nat \<Rightarrow> jsnum \<Rightarrow> jsnum \<Rightarrow> jsnum \<Rightarrow> jsnum \<times> bool" where
  "animateValue 0 start endValue duration = (start, False)"
| "animateValue (Suc k) start endValue duration =
     (let (current, cleared) = animateValue k start endValue duration;
          increment = animateIncrement start endValue duration
      in if cleared then (current, True)
         else let current' = js_add current increment
              in if (js_gt increment (Fin 0) \<and> js_le endValue current') \<or>
                    (js_gt (Fin 0) increment \<and> js_le current' endValue)
                 then (endValue, True) else (current', False))"

text \<open>
  The text of the time counter after \<open>k\<close> callbacks of a timer started by
  \<^verbatim>\<open>animateValue('timeValue', 0, end, 1000)\<close>, when no other timer writes to it.
\<close>

definition counterText :: "nat \<Rightarrow> jsnum \<Rightarrow> jsnum" where
  "counterText k endValue = js_round (fst (animateValue k (Fin 0) endValue (Fin 1000)))"

text \<open>
  Two timers on the counter, the second started when the first has had \<open>d\<close>
  callbacks.  Both run with the same period, so from then on each round is a
  callback of the first timer (unless cleared) followed by one of the second
  (unless cleared), and the text after a round is the last one written.
  \<open>counterTextTwo d k\<close> is the text after \<open>k\<close> rounds, \<open>None\<close> before the first
  write.
\<close>

fun counterTextTwo :: "nat \<Rightarrow> nat \<Rightarrow> jsnum \<Rightarrow> jsnum \<Rightarrow> jsnum option" where
  "counterTextTwo d 0 first second = None"
| "counterTextTwo d (Suc k) first second =
     (if d \<le> k \<and> \<not> snd (animateValue (k - d) (Fin 0) second (Fin 1000))
      then Some (counterText (Suc k - d) second)
      else if \<not> snd (animateValue k (Fin 0) first (Fin 1000))
      then Some (counterText (Suc k) first)
      else counterTextTwo d k first second)"

section \<open>The orchestrator \<^verbatim>\<open>predictDeliveryTime\<close>\<close>

text \<open>
  The function reads distance and item count from the form with \<^verbatim>\<open>parseFloat\<close>
  and \<^verbatim>\<open>parseInt\<close>; the model starts from the Numbers read, and from the current
  hour that \<^verbatim>\<open>new Date().getHours()\<close> gives in the \<^verbatim>\<open>catch\<close> block.  The request
  payload, the map (\<^verbatim>\<open>updateMap\<close> is taken not to throw), the alert and the button
  state are left out.

  What the \<^verbatim>\<open>fetch\<close> of \<^verbatim>\<open>/predict\<close> can come back with: the promise rejects
  (no connection), or a response arrives with its \<^verbatim>\<open>ok\<close> flag and a body;
  the body is \<open>None\<close> when \<^verbatim>\<open>response.json()\<close> rejects.  A body carries the
  fields the function reads; \<^verbatim>\<open>factors\<close> may be absent, and an absent
  \<^verbatim>\<open>estimated_time\<close> acts as \<open>NaN\<close> in the animation.
\<close>

record api_factors =
  weather_impact :: "string option"
  traffic_impact :: "string option"
  distance_factor :: "string option"
  peak_hour :: "string option"

record api_result =
  success :: bool
  estimated_time :: jsnum
  api_confidence :: int
  factors :: "api_factors option"

datatype fetch_outcome = Rejected | Response bool "api_result option"

text \<open>
  What the function has done to the page: the animations of the time counter it
  has started (the \<^verbatim>\<open>end\<close> argument of each \<^verbatim>\<open>animateValue\<close> call, oldest first),
  the confidence text its last \<^verbatim>\<open>setTimeout\<close> writes (the number in front of
  \<^verbatim>\<open>% Confidence\<close> and whether \<^verbatim>\<open>(Offline Mode)\<close> follows), and the four factor
  texts (\<open>None\<close> for \<^verbatim>\<open>undefined\<close>).  The confidence writes are all scheduled with
  the same delay, so they fire in the order scheduled and the last one stays.
\<close>

record page =
  timeAnimations :: "jsnum list"
  confidencePercent :: int
  offlineMode :: bool
  weatherImpactText :: "string option"
  trafficImpactText :: "string option"
  distanceFactorText :: "string option"
  peakHourText :: "string option"

text \<open>
  The \<^verbatim>\<open>try\<close> block.  It throws before anything is shown when the fetch rejects,
  when \<^verbatim>\<open>response.ok\<close> is false, when the body does not parse and when
  \<^verbatim>\<open>result.success\<close> is false.  When \<^verbatim>\<open>result.factors\<close> is missing it throws at
  the first factor line (reading \<^verbatim>\<open>weather_impact\<close> of \<^verbatim>\<open>undefined\<close>), after the
  animation towards \<^verbatim>\<open>result.estimated_time\<close> has been started and the write of
  \<^verbatim>\<open>result.confidence\<close> has been scheduled.  \<open>Threw\<close> carries the animations
  running at the throw.  Otherwise the block completes and the remote values are
  on the page.
\<close>

datatype try_result = Completed page | Threw "jsnum list"

definition remoteFailed :: "fetch_outcome \<Rightarrow> bool" where
  "remoteFailed outcome =
     (case outcome of
        Rejected \<Rightarrow> True
      | Response ok body \<Rightarrow>
          \<not> ok \<or> (case body of None \<Rightarrow> True | Some result \<Rightarrow> \<not> success result))"

definition tryBlock :: "fetch_outcome \<Rightarrow> try_result" where
  "tryBlock outcome =
     (case outcome of
        Rejected \<Rightarrow> Threw []
      | Response ok body \<Rightarrow>
          if \<not> ok then Threw []
          else (case body of
                  None \<Rightarrow> Threw []
                | Some result \<Rightarrow>
                    if \<not> success result then Threw []
                    else (case factors result of
                            None \<Rightarrow> Threw [estimated_time result]
                          | Some f \<Rightarrow>
                              Completed
                                \<lparr>timeAnimations = [estimated_time result],
                                 confidencePercent = api_confidence result,
                                 offlineMode = False,
                                 weatherImpactText = weather_impact f,
                                 trafficImpactText = traffic_impact f,
                                 distanceFactorText = distance_factor f,
                                 peakHourText = peak_hour f\<rparr>)))"

definition tryThrows :: "fetch_outcome \<Rightarrow> bool" where
  "tryThrows outcome = (case tryBlock outcome of Threw started \<Rightarrow> True | Completed shown \<Rightarrow> False)"

text \<open>
  The \<^verbatim>\<open>catch\<close> block: the offline estimate at the current hour.  It starts an
  animation towards the estimated time, next to those already running, schedules
  the confidence text with ten points taken off, and writes the four factor
  texts.
\<close>

definition catchBlock ::
  "jsnum list \<Rightarrow> jsnum \<Rightarrow> string \<Rightarrow> string \<Rightarrow> int \<Rightarrow> jsnum \<Rightarrow> page" where
  "catchBlock started distance weather traffic currentHour numItems =
     (let fallbackPrediction = calculateDeliveryTime distance weather traffic currentHour numItems
      in \<lparr>timeAnimations = started @ [time fallbackPrediction],
          confidencePercent = confidence fallbackPrediction - 10,
          offlineMode = True,
          weatherImpactText = weatherImpact fallbackPrediction,
          trafficImpactText = trafficImpact fallbackPrediction,
          distanceFactorText = Some (distanceFactor fallbackPrediction),
          peakHourText = Some (peakHour fallbackPrediction)\<rparr>)"

definition predictDeliveryTime ::
  "jsnum \<Rightarrow> jsnum \<Rightarrow> string \<Rightarrow> string \<Rightarrow> fetch_outcome \<Rightarrow> int \<Rightarrow> page" where
  "predictDeliveryTime distance numItems weather traffic outcome currentHour =
     (case tryBlock outcome of
        Completed shown \<Rightarrow> shown
      | Threw started \<Rightarrow> catchBlock started distance weather traffic currentHour numItems)"

section \<open>The ambient state\<close>

text \<open>
  What a function of the script can read and change besides its arguments: the
  clock behind \<^verbatim>\<open>new Date()\<close>, the values the coming calls of \<^verbatim>\<open>Math.random()\<close>
  return, and the two globals \<^verbatim>\<open>map\<close> and \<^verbatim>\<open>routeLayer\<close> (whether each holds an
  object).  A call of a function takes the ambient state and hands it back.

  The body of \<^verbatim>\<open>calculateDeliveryTime\<close> declares its tables and locals itself and
  names neither \<^verbatim>\<open>Date\<close>, \<^verbatim>\<open>Math.random\<close>, \<^verbatim>\<open>map\<close> nor \<^verbatim>\<open>routeLayer\<close>: its call
  computes the estimate from the five arguments and hands the state back as it
  was.  \<^verbatim>\<open>predictDeliveryTime\<close> takes the hour for the offline estimate from the
  clock.
\<close>

record ambient =
  clockHour :: int
  randomDraws :: "jsnum list"
  mapGlobal :: bool
  routeLayerGlobal :: bool


definition predictDeliveryTime_page ::
  "ambient \<Rightarrow> jsnum \<Rightarrow> jsnum \<Rightarrow> string \<Rightarrow> string \<Rightarrow> fetch_outcome \<Rightarrow> page" where
  "predictDeliveryTime_page state distance numItems weather traffic outcome =
     predictDeliveryTime distance numItems weather traffic outcome (clockHour state)"

section \<open>Input domains\<close>

text \<open>
  The keys of the two multiplier tables, numbered in the order in which the tables
  list them (the order of increasing severity), and the requests that count as
  valid: a finite positive distance, a whole number of items that is at least one,
  and a weather and a traffic value that are keys of the tables.
\<close>

definition weatherSeverity :: "string \<rightharpoonup> nat" where
  "weatherSeverity = map_of
     [(''Clear'', 0), (''Cloudy'', 1), (''Hot'', 2), (''Rain'', 3), (''Heavy Rain'', 4)]"

definition trafficSeverity :: "string \<rightharpoonup> nat" where
  "trafficSeverity = map_of
     [(''Low'', 0), (''Medium'', 1), (''High'', 2), (''Very High'', 3)]"

definition wholeNumber :: "jsnum \<Rightarrow> bool" where
  "wholeNumber v = (case v of Fin n \<Rightarrow> of_int \<lfloor>n\<rfloor> = n | _ \<Rightarrow> False)"

definition validRequest :: "jsnum \<Rightarrow> jsnum \<Rightarrow> string \<Rightarrow> string \<Rightarrow> bool" where
  "validRequest distance numItems weather traffic =
     ((case distance of Fin d \<Rightarrow> 0 < d | _ \<Rightarrow> False) \<and>
      wholeNumber numItems \<and> js_le (Fin 1) numItems \<and>
      weatherSeverity weather \<noteq> None \<and> trafficSeverity traffic \<noteq> None)"

section \<open>Rounding to binary64 is monotone\<close>

lemma rhe_bounds: "\<lfloor>r\<rfloor> \<le> round_half_even r \<and> round_half_even r \<le> \<lfloor>r\<rfloor> + 1"
  by (simp add: round_half_even_def Let_def)

lemma rhe_of_int [simp]: "round_half_even (of_int n) = n"
  by (simp add: round_half_even_def)

lemma rhe_mono:
  assumes "r \<le> s"
  shows "round_half_even r \<le> round_half_even s"
proof (cases "\<lfloor>r\<rfloor> = \<lfloor>s\<rfloor>")
  case True
  with assms show ?thesis
    by (auto simp add: round_half_even_def Let_def)
next
  case False
  with floor_mono [OF assms] have "\<lfloor>r\<rfloor> + 1 \<le> \<lfloor>s\<rfloor>"
    by linarith
  with rhe_bounds [of r] rhe_bounds [of s] show ?thesis
    by linarith
qed

lemma rhe_neg: "round_half_even (- r) = - round_half_even r"
proof (cases "r \<in> \<int>")
  case True
  then obtain n where "r = of_int n"
    by (auto elim: Ints_cases)
  then have "- r = of_int (- n)"
    by simp
  then show ?thesis
    using \<open>r = of_int n\<close> by (simp only: rhe_of_int)
next
  case False
  then have ne: "r \<noteq> of_int \<lfloor>r\<rfloor>"
    by (metis Ints_of_int)
  then have fm: "\<lfloor>- r\<rfloor> = - \<lfloor>r\<rfloor> - 1"
    by (simp add: floor_minus ceiling_altdef)
  show ?thesis
    unfolding round_half_even_def Let_def fm
    by (auto simp add: algebra_simps)
qed

lemma bitlen_powi:
  assumes "0 < a"
  shows "(2::rat) powi (bitlen a - 1) \<le> of_int a \<and> of_int a < (2::rat) powi (bitlen a)"
proof -
  have pos: "1 \<le> bitlen a"
    using assms bitlen_eq_zero_iff [of a] bitlen_nonneg [of a] by linarith
  from bitlen_bounds [OF assms]
  have lo: "2 ^ nat (bitlen a - 1) \<le> a" and hi: "a < 2 ^ nat (bitlen a)"
    by simp_all
  have "(of_int (2 ^ nat (bitlen a - 1)) :: rat) \<le> of_int a"
    using lo by (simp only: of_int_le_iff)
  moreover have "(of_int a :: rat) < of_int (2 ^ nat (bitlen a))"
    using hi by (simp only: of_int_less_iff)
  ultimately show ?thesis
    using pos by (simp add: power_int_def)
qed

lemma powi_two_pos [simp]: "0 < (2::rat) powi e"
  by (simp add: power_int_def)

lemma powi_two_le_iff [simp]: "(2::rat) powi d \<le> 2 powi e \<longleftrightarrow> d \<le> e"
proof
  assume "(2::rat) powi d \<le> 2 powi e"
  show "d \<le> e"
  proof (rule ccontr)
    assume "\<not> d \<le> e"
    then have "(2::rat) powi e < 2 powi d"
      by (intro power_int_strict_increasing) simp_all
    with \<open>(2::rat) powi d \<le> 2 powi e\<close> show False
      by simp
  qed
next
  assume "d \<le> e"
  then show "(2::rat) powi d \<le> 2 powi e"
    by (intro power_int_increasing) simp_all
qed

lemma powi_two_less_iff [simp]: "(2::rat) powi d < 2 powi e \<longleftrightarrow> d < e"
  using powi_two_le_iff [of e d] by (simp only: not_le [symmetric])

lemma ilog2_bracket:
  assumes "0 < x"
  shows "2 powi (ilog2 x) \<le> x \<and> x < 2 powi (ilog2 x + 1)"
proof -
  obtain a b where q: "quotient_of x = (a, b)"
    by (cases "quotient_of x")
  have b: "0 < b"
    using q by (rule quotient_of_denom_pos)
  have x: "x = of_int a / of_int b"
    using q by (rule quotient_of_div)
  have a: "0 < a"
    using assms b by (simp add: x zero_less_divide_iff)
  define k where "k = bitlen a - bitlen b"
  from bitlen_powi [OF a] bitlen_powi [OF b]
  have a1: "(2::rat) powi (bitlen a - 1) \<le> of_int a" and a2: "of_int a < (2::rat) powi bitlen a"
    and b1: "(2::rat) powi (bitlen b - 1) \<le> of_int b" and b2: "of_int b < (2::rat) powi bitlen b"
    by simp_all
  have bpos: "(0::rat) < of_int b"
    using b by simp
  have "2 powi (k - 1) * of_int b < (2::rat) powi (k - 1) * 2 powi bitlen b"
    using b2 by simp
  also have "\<dots> = 2 powi (bitlen a - 1)"
    by (simp add: k_def power_int_add [symmetric])
  also have "\<dots> \<le> of_int a"
    by (rule a1)
  finally have lo: "2 powi (k - 1) < x"
    using bpos by (simp add: x pos_less_divide_eq)
  have "of_int a < (2::rat) powi bitlen a"
    by (rule a2)
  also have "\<dots> = 2 powi (k + 1) * 2 powi (bitlen b - 1)"
    by (simp add: k_def power_int_add [symmetric])
  also have "\<dots> \<le> 2 powi (k + 1) * of_int b"
    using b1 by simp
  finally have hi: "x < 2 powi (k + 1)"
    using bpos by (simp add: x pos_divide_less_eq)
  have "ilog2 x = (if 2 powi k \<le> x then k else k - 1)"
    by (simp add: ilog2_def q k_def)
  with lo hi show ?thesis
    by (auto simp add: not_le)
qed

lemma powi_bracket_le:
  assumes "(2::rat) powi d \<le> x" and "x < 2 powi (e + 1)"
  shows "d \<le> e"
proof -
  from assms have "(2::rat) powi d < 2 powi (e + 1)"
    by (rule le_less_trans)
  then show ?thesis
    by simp
qed

lemma ilog2_unique:
  assumes "2 powi e \<le> x" and "x < 2 powi (e + 1)"
  shows "ilog2 x = e"
proof -
  have "0 < x"
    using assms(1) powi_two_pos [of e] by linarith
  from ilog2_bracket [OF this]
  have "2 powi (ilog2 x) \<le> x" and "x < 2 powi (ilog2 x + 1)"
    by simp_all
  with assms have "ilog2 x \<le> e" and "e \<le> ilog2 x"
    by (auto intro: powi_bracket_le)
  then show ?thesis
    by simp
qed

lemma ilog2_mono:
  assumes "0 < x" and "x \<le> y"
  shows "ilog2 x \<le> ilog2 y"
proof -
  have "0 < y"
    using assms by simp
  from ilog2_bracket [OF assms(1)] ilog2_bracket [OF this] assms(2)
  show ?thesis
    by (auto intro: powi_bracket_le)
qed


lemma rhe_zero [simp]: "round_half_even 0 = 0"
  using rhe_of_int [of 0] by simp

lemma expo_zero [simp]: "expo 0 = - 1022"
  by (simp add: expo_def)

lemma expo_minus [simp]: "expo (- x) = expo x"
  by (simp add: expo_def)

lemma expo_ge: "- 1022 \<le> expo x"
  by (simp add: expo_def)

lemma ulp_minus [simp]: "ulp (- x) = ulp x"
  by (simp add: ulp_def)

lemma ulp_pos [simp]: "0 < ulp x"
  by (simp add: ulp_def)

lemma rd_zero [simp]: "rd 0 = 0"
  by (simp add: rd_def rq_def)

lemma rd_minus: "rd (- x) = - rd x"
  by (simp add: rd_def rq_def rhe_neg)

lemma expo_mono:
  assumes "0 \<le> x" and "x \<le> y"
  shows "expo x \<le> expo y"
proof (cases "x = 0")
  case True
  then show ?thesis
    by (simp add: expo_ge)
next
  case False
  with assms have "0 < x" and "0 < y"
    by simp_all
  then have "ilog2 \<bar>x\<bar> \<le> ilog2 \<bar>y\<bar>"
    using assms(2) by (simp add: ilog2_mono)
  then show ?thesis
    using \<open>0 < x\<close> \<open>0 < y\<close> by (simp add: expo_def)
qed

lemma expo_upper:
  assumes "0 \<le> x"
  shows "x < 2 powi (expo x + 1)"
proof (cases "x = 0")
  case True
  then show ?thesis
    by simp
next
  case False
  with assms have pos: "0 < x"
    by simp
  from ilog2_bracket [OF pos] have "x < 2 powi (ilog2 x + 1)"
    by simp
  also have "\<dots> \<le> 2 powi (expo x + 1)"
    using pos by (simp add: expo_def)
  finally show ?thesis .
qed

lemma expo_lower:
  assumes "0 \<le> x" and "- 1022 < expo x"
  shows "2 powi (expo x) \<le> x"
proof -
  have ne: "x \<noteq> 0"
    using assms(2) by auto
  with assms(1) have pos: "0 < x"
    by simp
  have "expo x = ilog2 x"
    using assms(2) pos by (simp add: expo_def max_def split: if_splits)
  with ilog2_bracket [OF pos] show ?thesis
    by simp
qed

lemma rd_rq: "rd x = rq (ulp x) x"
  by (simp add: rd_def)

lemma rq_mono:
  assumes "0 < q" and "x \<le> y"
  shows "rq q x \<le> rq q y"
proof -
  have "x / q \<le> y / q"
    using assms by (simp add: divide_right_mono)
  then have "round_half_even (x / q) \<le> round_half_even (y / q)"
    by (rule rhe_mono)
  then show ?thesis
    using assms(1) by (simp add: rq_def)
qed

lemma rq_fix:
  assumes "0 < q" and "g = of_int n * q"
  shows "rq q g = g"
  using assms by (simp add: rq_def)

lemma powi_two_split: "(2::rat) powi (e + 1) = of_int (2 ^ 53) * 2 powi (e - 52)"
proof -
  have "(2::rat) powi (53 + (e - 52)) = 2 powi 53 * 2 powi (e - 52)"
    by (rule power_int_add) simp
  moreover have "53 + (e - 52) = e + 1"
    by simp
  moreover have "(2::rat) powi 53 = of_int (2 ^ 53)"
    by simp
  ultimately show ?thesis
    by (simp only:)
qed

lemma powi_two_split': "(2::rat) powi e = of_int (2 ^ 52) * 2 powi (e - 52)"
proof -
  have "(2::rat) powi (52 + (e - 52)) = 2 powi 52 * 2 powi (e - 52)"
    by (rule power_int_add) simp
  moreover have "52 + (e - 52) = e"
    by simp
  moreover have "(2::rat) powi 52 = of_int (2 ^ 52)"
    by simp
  ultimately show ?thesis
    by (simp only:)
qed

lemma rd_upper:
  assumes "0 \<le> x"
  shows "rd x \<le> 2 powi (expo x + 1)"
proof -
  have "rq (ulp x) x \<le> rq (ulp x) (2 powi (expo x + 1))"
    using expo_upper [OF assms] by (intro rq_mono) simp_all
  also have "\<dots> = 2 powi (expo x + 1)"
  proof (rule rq_fix [where n = "2 ^ 53"])
    show "0 < ulp x"
      by simp
    show "2 powi (expo x + 1) = of_int (2 ^ 53) * ulp x"
      unfolding ulp_def by (rule powi_two_split)
  qed
  finally show ?thesis
    by (simp only: rd_rq)
qed

lemma rd_lower:
  assumes "0 \<le> x" and "- 1022 < expo x"
  shows "2 powi (expo x) \<le> rd x"
proof -
  have "rq (ulp x) (2 powi (expo x)) = 2 powi (expo x)"
  proof (rule rq_fix [where n = "2 ^ 52"])
    show "0 < ulp x"
      by simp
    show "2 powi (expo x) = of_int (2 ^ 52) * ulp x"
      unfolding ulp_def by (rule powi_two_split')
  qed
  moreover have "rq (ulp x) (2 powi (expo x)) \<le> rq (ulp x) x"
    using expo_lower [OF assms] by (intro rq_mono) simp_all
  ultimately show ?thesis
    by (simp only: rd_rq)
qed

lemma rd_nonneg:
  assumes "0 \<le> x"
  shows "0 \<le> rd x"
proof -
  have "rq (ulp x) 0 \<le> rq (ulp x) x"
    using assms by (intro rq_mono) simp_all
  then show ?thesis
    by (simp add: rd_rq rq_def zero_le_mult_iff)
qed

lemma rd_mono_nonneg:
  assumes "0 \<le> x" and "x \<le> y"
  shows "rd x \<le> rd y"
proof (cases "expo x = expo y")
  case True
  then have "ulp x = ulp y"
    by (simp add: ulp_def)
  then show ?thesis
    using assms(2) by (simp add: rd_rq rq_mono)
next
  case False
  with expo_mono [OF assms] have less: "expo x + 1 \<le> expo y"
    by simp
  have y: "0 \<le> y"
    using assms by simp
  have "- 1022 < expo y"
    using less expo_ge [of x] by linarith
  from rd_lower [OF y this] have "2 powi (expo y) \<le> rd y" .
  moreover have "rd x \<le> 2 powi (expo x + 1)"
    using assms(1) by (rule rd_upper)
  moreover have "(2::rat) powi (expo x + 1) \<le> 2 powi (expo y)"
    using less by simp
  ultimately show ?thesis
    by linarith
qed

lemma rd_mono:
  assumes "x \<le> y"
  shows "rd x \<le> rd y"
proof -
  consider "0 \<le> x" | "y \<le> 0" | "x < 0" "0 < y"
    by linarith
  then show ?thesis
  proof cases
    case 1
    then show ?thesis
      using assms by (rule rd_mono_nonneg)
  next
    case 2
    then have "rd (- y) \<le> rd (- x)"
      using assms by (intro rd_mono_nonneg) simp_all
    then show ?thesis
      by (simp add: rd_minus)
  next
    case 3
    then have "0 \<le> rd (- x)" and "0 \<le> rd y"
      by (simp_all add: rd_nonneg)
    then show ?thesis
      by (simp add: rd_minus)
  qed
qed


lemma fl_mono:
  assumes "x \<le> y"
  shows "js_le (fl x) (fl y)"
  using rd_mono [OF assms] by (simp add: fl_def Let_def)

lemma expo_eq:
  assumes "2 powi e \<le> \<bar>x\<bar>" and "\<bar>x\<bar> < 2 powi (e + 1)" and "- 1022 \<le> e"
  shows "expo x = e"
proof -
  have "0 < \<bar>x\<bar>"
    using assms(1) powi_two_pos [of e] by linarith
  then have "x \<noteq> 0"
    by simp
  moreover have "ilog2 \<bar>x\<bar> = e"
    using assms(1,2) by (rule ilog2_unique)
  ultimately show ?thesis
    using assms(3) by (simp add: expo_def)
qed

lemma rd_abs_upper: "\<bar>rd x\<bar> \<le> 2 powi (expo x + 1)"
proof (cases "0 \<le> x")
  case True
  then show ?thesis
    using rd_upper [of x] rd_nonneg [of x] by simp
next
  case False
  then have "0 \<le> - x"
    by simp
  from rd_upper [OF this] rd_nonneg [OF this] show ?thesis
    by (simp add: rd_minus)
qed

lemma fl_eval:
  assumes "2 powi e \<le> \<bar>x\<bar>" and "\<bar>x\<bar> < 2 powi (e + 1)" and "- 1022 \<le> e" and "e \<le> 1022"
    and "round_half_even (x / 2 powi (e - 52)) = m"
  shows "fl x = Fin (of_int m * 2 powi (e - 52))"
proof -
  have e: "expo x = e"
    using assms(1-3) by (rule expo_eq)
  have "\<bar>rd x\<bar> \<le> 2 powi (e + 1)"
    using rd_abs_upper [of x] by (simp only: e)
  also have "\<dots> < 2 powi 1024"
    using assms(4) by (simp only: powi_two_less_iff)
  finally have "\<not> 2 powi 1024 \<le> rd x" and "\<not> rd x \<le> - (2 powi 1024)"
    by linarith+
  moreover have "rd x = of_int m * 2 powi (e - 52)"
    using assms(5) by (simp add: rd_def rq_def ulp_def e)
  ultimately show ?thesis
    by (simp add: fl_def Let_def)
qed

lemma rhe_eqI:
  assumes "\<bar>r - of_int m\<bar> < 1 / 2"
  shows "round_half_even r = m"
proof -
  from assms have lo: "of_int m - 1 / 2 < r" and hi: "r < of_int m + 1 / 2"
    by linarith+
  show ?thesis
  proof (cases "of_int m \<le> r")
    case True
    then have "\<lfloor>r\<rfloor> = m"
      using hi by (intro floor_unique) simp_all
    then show ?thesis
      using hi by (simp add: round_half_even_def Let_def)
  next
    case False
    then have "\<lfloor>r\<rfloor> = m - 1"
      using lo by (intro floor_unique) simp_all
    then show ?thesis
      using lo False by (simp add: round_half_even_def Let_def)
  qed
qed

lemma fl_near:
  assumes "2 powi e \<le> \<bar>x\<bar>" and "\<bar>x\<bar> < 2 powi (e + 1)" and "- 1022 \<le> e" and "e \<le> 1022"
    and "\<bar>x / 2 powi (e - 52) - of_int m\<bar> < 1 / 2"
  shows "fl x = Fin (of_int m * 2 powi (e - 52))"
  using assms(1-4) rhe_eqI [OF assms(5)] by (rule fl_eval)

section \<open>Rounded values are fixed points\<close>

lemma rd_fix:
  assumes "x = of_int n * ulp x"
  shows "rd x = x"
  unfolding rd_def using ulp_pos assms by (rule rq_fix)

lemma ulp_eq:
  assumes "expo y = expo x"
  shows "ulp y = ulp x"
  using assms by (simp add: ulp_def)

lemma expo_small:
  assumes "0 < y" and "y < 2 powi (- 1021)"
  shows "expo y = - 1022"
proof -
  from ilog2_bracket [OF assms(1)] have "2 powi (ilog2 y) \<le> y"
    by simp
  moreover have "y < 2 powi (- 1022 + 1)"
    using assms(2) by simp
  ultimately have "ilog2 y \<le> - 1022"
    by (rule powi_bracket_le)
  then show ?thesis
    using assms(1) by (simp add: expo_def)
qed

lemma rd_idem_nonneg:
  assumes "0 \<le> x"
  shows "rd (rd x) = rd x"
proof -
  define e where "e = expo x"
  define m where "m = round_half_even (x / ulp x)"
  define y where "y = rd x"
  have y: "y = of_int m * ulp x"
    by (simp add: y_def m_def rd_def rq_def)
  have y0: "0 \<le> y"
    unfolding y_def using assms by (rule rd_nonneg)
  have yu: "y \<le> 2 powi (e + 1)"
    unfolding y_def e_def using assms by (rule rd_upper)
  have e: "- 1022 \<le> e"
    unfolding e_def by (rule expo_ge)
  consider "y = 2 powi (e + 1)" | "y = 0" | "0 < y" "y < 2 powi (e + 1)"
    using y0 yu by linarith
  then have "rd y = y"
  proof cases
    case 1
    have "expo y = e + 1"
    proof (rule expo_eq)
      show "2 powi (e + 1) \<le> \<bar>y\<bar>"
        using 1 by simp
      show "\<bar>y\<bar> < 2 powi (e + 1 + 1)"
        using 1 by simp
      show "- 1022 \<le> e + 1"
        using e by simp
    qed
    then have "ulp y = 2 powi (e + 1 - 52)"
      by (simp add: ulp_def)
    with 1 have "y = of_int (2 ^ 52) * ulp y"
      using powi_two_split' [of "e + 1"] by simp
    then show ?thesis
      by (rule rd_fix)
  next
    case 2
    then show ?thesis
      by simp
  next
    case 3
    have "expo y = e"
    proof (cases "- 1022 < e")
      case True
      then have "2 powi e \<le> y"
        unfolding y_def e_def using assms by (intro rd_lower) simp_all
      then show ?thesis
        using 3 e by (intro expo_eq) simp_all
    next
      case False
      with e have "e = - 1022"
        by simp
      with 3 show ?thesis
        by (simp add: expo_small)
    qed
    then have "ulp y = ulp x"
      unfolding e_def by (rule ulp_eq)
    with y have "y = of_int m * ulp y"
      by simp
    then show ?thesis
      by (rule rd_fix)
  qed
  then show ?thesis
    by (simp only: y_def)
qed

lemma rd_idem: "rd (rd x) = rd x"
proof (cases "0 \<le> x")
  case True
  then show ?thesis
    by (rule rd_idem_nonneg)
next
  case False
  then have "rd (rd (- x)) = rd (- x)"
    by (intro rd_idem_nonneg) simp
  then show ?thesis
    by (simp add: rd_minus)
qed

lemma rd_small_Ints:
  assumes "x \<in> \<int>" and "expo x \<le> 52"
  shows "rd x = x"
proof -
  obtain k where k: "x = of_int k"
    using assms(1) by (auto elim: Ints_cases)
  define n where "n = nat (52 - expo x)"
  have u: "ulp x = 1 / 2 ^ n"
    using assms(2) by (simp add: ulp_def power_int_def n_def field_simps)
  have "of_int (k * 2 ^ n) * ulp x = of_int (k * 2 ^ n) * (1 / 2 ^ n)"
    by (simp only: u)
  also have "\<dots> = of_int k"
    by simp
  also have "\<dots> = x"
    by (simp only: k)
  finally have "x = of_int (k * 2 ^ n) * ulp x"
    by (rule sym)
  then show ?thesis
    by (rule rd_fix)
qed

lemma rd_Ints:
  assumes "x \<in> \<int>"
  shows "rd x \<in> \<int>"
proof (cases "52 \<le> expo x")
  case True
  then have "ulp x = of_int (2 ^ nat (expo x - 52))"
    by (simp add: ulp_def power_int_def)
  then have "rd x = of_int (round_half_even (x / ulp x) * 2 ^ nat (expo x - 52))"
    by (simp add: rd_def rq_def)
  then show ?thesis
    by (simp only: Ints_of_int)
next
  case False
  then have "rd x = x"
    using assms by (intro rd_small_Ints) simp_all
  then show ?thesis
    using assms by simp
qed

lemma expo_le:
  assumes "\<bar>x\<bar> < 2 powi (e + 1)" and "- 1022 \<le> e"
  shows "expo x \<le> e"
proof (cases "x = 0")
  case True
  then show ?thesis
    using assms(2) by simp
next
  case False
  then have "0 < \<bar>x\<bar>"
    by simp
  from ilog2_bracket [OF this] have "2 powi (ilog2 \<bar>x\<bar>) \<le> \<bar>x\<bar>"
    by simp
  then have "ilog2 \<bar>x\<bar> \<le> e"
    using assms(1) by (rule powi_bracket_le)
  then show ?thesis
    using assms(2) False by (simp add: expo_def)
qed

lemma fl_small_int:
  assumes "\<bar>k\<bar> < 2 ^ 53"
  shows "fl (of_int k) = Fin (of_int k)"
proof -
  have "\<bar>of_int k :: rat\<bar> = of_int \<bar>k\<bar>"
    by simp
  also have "\<dots> < of_int (2 ^ 53)"
    using assms by (simp only: of_int_less_iff)
  finally have lt: "\<bar>of_int k :: rat\<bar> < 2 powi (52 + 1)"
    by simp
  then have "expo (of_int k) \<le> 52"
    by (rule expo_le) simp
  then have "rd (of_int k) = of_int k"
    by (intro rd_small_Ints) simp_all
  moreover have "(2::rat) powi (52 + 1) < 2 powi 1024"
    by (simp only: powi_two_less_iff)
  ultimately show ?thesis
    using lt by (simp add: fl_def Let_def abs_less_iff)
qed

lemma fl_zero [simp]: "fl 0 = Fin 0"
  by (simp add: fl_def)

lemma fl_nonneg:
  assumes "0 \<le> x"
  shows "js_le (Fin 0) (fl x)"
  using fl_mono [OF assms] by simp

lemma fl_Fin_fix:
  assumes "fl x = Fin y"
  shows "fl y = Fin y"
proof -
  from assms have y: "y = rd x" and "\<not> 2 powi 1024 \<le> rd x" and "\<not> rd x \<le> - (2 powi 1024)"
    by (auto simp add: fl_def Let_def split: if_splits)
  then show ?thesis
    by (simp add: fl_def Let_def rd_idem)
qed

lemma fl_Fin_Ints:
  assumes "fl x = Fin y" and "x \<in> \<int>"
  shows "y \<in> \<int>"
proof -
  from assms(1) have "y = rd x"
    by (auto simp add: fl_def Let_def split: if_splits)
  with rd_Ints [OF assms(2)] show ?thesis
    by simp
qed


section \<open>The literals of the source\<close>

lemma rhe_eqI_even:
  assumes "\<bar>r - of_int m\<bar> \<le> 1 / 2" and "even m"
  shows "round_half_even r = m"
proof -
  consider "\<bar>r - of_int m\<bar> < 1 / 2" | "r = of_int m + 1 / 2" | "r = of_int m - 1 / 2"
    using assms(1) by linarith
  then show ?thesis
  proof cases
    case 1
    then show ?thesis
      by (rule rhe_eqI)
  next
    case 2
    then have "\<lfloor>r\<rfloor> = m"
      by (intro floor_unique) simp_all
    then show ?thesis
      using 2 assms(2) by (simp add: round_half_even_def Let_def)
  next
    case 3
    then have "\<lfloor>r\<rfloor> = m - 1"
      by (intro floor_unique) simp_all
    then show ?thesis
      using 3 assms(2) by (simp add: round_half_even_def Let_def)
  qed
qed

lemma fl_near_even:
  assumes "2 powi e \<le> \<bar>x\<bar>" and "\<bar>x\<bar> < 2 powi (e + 1)" and "- 1022 \<le> e" and "e \<le> 1022"
    and "\<bar>x / 2 powi (e - 52) - of_int m\<bar> \<le> 1 / 2" and "even m"
  shows "fl x = Fin (of_int m * 2 powi (e - 52))"
  using assms(1-4) rhe_eqI_even [OF assms(5,6)] by (rule fl_eval)

lemma fl_1: "fl 1.0 = Fin 1"
  using fl_near [of 0 "1.0" 4503599627370496] by (simp add: power_int_minus)

lemma fl_1_05: "fl 1.05 = Fin (4728779608739021 / 4503599627370496)"
  using fl_near [of 0 "1.05" 4728779608739021] by (simp add: power_int_minus)

lemma fl_1_1: "fl 1.1 = Fin (4953959590107546 / 4503599627370496)"
  using fl_near [of 0 "1.1" 4953959590107546] by (simp add: power_int_minus)

lemma fl_1_3: "fl 1.3 = Fin (5854679515581645 / 4503599627370496)"
  using fl_near [of 0 "1.3" 5854679515581645] by (simp add: power_int_minus)

lemma fl_1_6: "fl 1.6 = Fin (7205759403792794 / 4503599627370496)"
  using fl_near [of 0 "1.6" 7205759403792794] by (simp add: power_int_minus)

lemma fl_1_2: "fl 1.2 = Fin (5404319552844595 / 4503599627370496)"
  using fl_near [of 0 "1.2" 5404319552844595] by (simp add: power_int_minus)

lemma fl_1_5: "fl 1.5 = Fin (6755399441055744 / 4503599627370496)"
  using fl_near [of 0 "1.5" 6755399441055744] by (simp add: power_int_minus)

lemma fl_1_8: "fl 1.8 = Fin (8106479329266893 / 4503599627370496)"
  using fl_near [of 0 "1.8" 8106479329266893] by (simp add: power_int_minus)

lemma fl_1_15: "fl 1.15 = Fin (5179139571476070 / 4503599627370496)"
  using fl_near [of 0 "1.15" 5179139571476070] by (simp add: power_int_minus)

lemmas fl_literals = fl_1 fl_1_05 fl_1_1 fl_1_3 fl_1_6 fl_1_2 fl_1_5 fl_1_8 fl_1_15

section \<open>Monotone operators\<close>

lemma js_le_trans:
  assumes "js_le a b" and "js_le b c"
  shows "js_le a c"
  using assms by (cases a; cases b; cases c) simp_all

lemma js_mul_nonneg:
  assumes "js_le (Fin 0) a" and "0 < c"
  shows "js_le (Fin 0) (js_mul a (Fin c))"
  using assms by (cases a) (simp_all add: fl_nonneg)

lemma js_mul_mono_left:
  assumes "js_le a b" and "js_le (Fin 0) a" and "0 < c"
  shows "js_le (js_mul a (Fin c)) (js_mul b (Fin c))"
proof (cases a)
  case (Fin x)
  show ?thesis
  proof (cases b)
    case (Fin y)
    with assms \<open>a = Fin x\<close> have "x * c \<le> y * c"
      by simp
    then show ?thesis
      using \<open>a = Fin x\<close> Fin by (simp add: fl_mono)
  next
    case PInf
    have "fl (x * c) \<noteq> NaN"
      by (simp add: fl_def Let_def)
    then have "js_le (fl (x * c)) PInf"
      by (cases "fl (x * c)") simp_all
    then show ?thesis
      using assms \<open>a = Fin x\<close> PInf by simp
  qed (use assms \<open>a = Fin x\<close> in simp_all)
qed (use assms in \<open>cases b; simp\<close>)+

lemma js_mul_mono_right:
  assumes "js_le (Fin 0) a" and "0 < r" and "r \<le> s"
  shows "js_le (js_mul a (Fin r)) (js_mul a (Fin s))"
proof (cases a)
  case (Fin x)
  with assms have "x * r \<le> x * s"
    by (simp add: mult_left_mono)
  then show ?thesis
    using Fin by (simp add: fl_mono)
qed (use assms in simp_all)

lemma fl_not_NaN [simp]: "fl x \<noteq> NaN"
  by (simp add: fl_def Let_def)

lemma js_le_PInf:
  assumes "v \<noteq> NaN"
  shows "js_le v PInf"
  using assms by (cases v) simp_all

lemma js_add_nonneg:
  assumes "js_le (Fin 0) p" and "js_le (Fin 0) a"
  shows "js_le (Fin 0) (js_add p a)"
  using assms by (cases p; cases a) (simp_all add: fl_nonneg)

lemma js_add_mono_right:
  assumes "js_le (Fin 0) p" and "js_le (Fin 0) a" and "js_le a b"
  shows "js_le (js_add p a) (js_add p b)"
  using assms by (cases p; cases a; cases b) (simp_all add: fl_mono js_le_PInf)

lemma js_round_mono:
  assumes "js_le a b"
  shows "js_le (js_round a) (js_round b)"
  using assms by (cases a; cases b) (simp_all add: floor_mono)

lemma js_round_nonneg:
  assumes "js_le (Fin 0) a"
  shows "js_le (Fin 0) (js_round a)"
  using assms by (cases a) simp_all

lemma js_round_ge_whole:
  assumes "js_le p a" and "wholeNumber p"
  shows "js_le p (js_round a)"
proof -
  from assms(2) obtain y where p: "p = Fin y" and y: "of_int \<lfloor>y\<rfloor> = y"
    by (auto simp add: wholeNumber_def split: jsnum.splits)
  show ?thesis
  proof (cases a)
    case (Fin x)
    with assms(1) p have "y \<le> x"
      by simp
    then have "\<lfloor>y\<rfloor> \<le> \<lfloor>x + 1 / 2\<rfloor>"
      by (intro floor_mono) simp
    then have "(of_int \<lfloor>y\<rfloor> :: rat) \<le> of_int \<lfloor>x + 1 / 2\<rfloor>"
      by (simp only: of_int_le_iff)
    then show ?thesis
      using p y Fin by simp
  qed (use assms(1) p in simp_all)
qed

section \<open>The counter animation clears\<close>

lemma rhe_error: "\<bar>of_int (round_half_even r) - r\<bar> \<le> 1 / 2"
proof -
  have "of_int \<lfloor>r\<rfloor> \<le> r" and "r < of_int \<lfloor>r\<rfloor> + 1"
    by linarith+
  then show ?thesis
    by (auto simp add: round_half_even_def Let_def)
qed

lemma rq_error:
  assumes "0 < q"
  shows "\<bar>rq q x - x\<bar> \<le> q / 2"
proof -
  have "rq q x - x = (of_int (round_half_even (x / q)) - x / q) * q"
    using assms by (simp add: rq_def algebra_simps)
  then have "\<bar>rq q x - x\<bar> = \<bar>of_int (round_half_even (x / q)) - x / q\<bar> * q"
    using assms by (simp add: abs_mult)
  also have "\<dots> \<le> 1 / 2 * q"
    using rhe_error [of "x / q"] assms by (intro mult_right_mono) simp_all
  finally show ?thesis
    by simp
qed

lemma expo_lower_normal:
  assumes "2 powi (- 1022) \<le> x"
  shows "2 powi (expo x) \<le> x"
proof -
  have pos: "0 < x"
    using assms powi_two_pos [of "- 1022"] by linarith
  from ilog2_bracket [OF pos] have b: "2 powi (ilog2 x) \<le> x" "x < 2 powi (ilog2 x + 1)"
    by simp_all
  from assms b(2) have "- 1022 \<le> ilog2 x"
    by (rule powi_bracket_le)
  then have "expo x = ilog2 x"
    using pos by (simp add: expo_def)
  with b(1) show ?thesis
    by simp
qed

lemma rd_error:
  assumes "2 powi (- 1022) \<le> x"
  shows "\<bar>rd x - x\<bar> \<le> x / 2 ^ 53"
proof -
  have "\<bar>rd x - x\<bar> \<le> ulp x / 2"
    unfolding rd_def by (rule rq_error) simp
  also have "ulp x / 2 = 2 powi (expo x) / 2 ^ 53"
  proof -
    have "(2::rat) powi (expo x - 52) = 2 powi (expo x) / 2 powi 52"
      by (rule power_int_diff) simp
    then show ?thesis
      by (simp add: ulp_def)
  qed
  also have "\<dots> \<le> x / 2 ^ 53"
    using expo_lower_normal [OF assms] by (simp add: divide_right_mono)
  finally show ?thesis .
qed


lemma fl_cases:
  obtains "fl z = PInf" and "2 powi 1024 \<le> rd z"
  | "fl z = NInf" and "rd z \<le> - (2 powi 1024)"
  | "fl z = Fin (rd z)" and "rd z < 2 powi 1024" and "- (2 powi 1024) < rd z"
  by (cases "2 powi 1024 \<le> rd z"; cases "rd z \<le> - (2 powi 1024)")
    (auto simp add: fl_def Let_def)

lemma fl_62_5: "fl (125 / 2) = Fin (125 / 2)"
  using fl_near [of 5 "125 / 2" "125 * 2 ^ 46"] by (simp add: power_int_minus)

lemma animation_period: "js_div (Fin 1000) (Fin 16) = Fin (125 / 2)"
  by (simp add: fl_62_5)

lemma tiny_le: "(2::rat) powi (- 1022) \<le> 1 / 128"
proof -
  have "(2::rat) powi (- 1022) \<le> 2 powi (- 7)"
    by (simp only: powi_two_le_iff)
  then show ?thesis
    by (simp add: power_int_minus)
qed

lemma rd_one: "rd 1 = 1"
  using fl_small_int [of 1] by (simp add: fl_def Let_def split: if_splits)

lemma increment_bounds:
  assumes "1 \<le> e" and "fl e = Fin r"
  shows "\<exists>i. animateIncrement (Fin 0) (Fin e) (Fin 1000) = Fin i \<and> e / 64 \<le> i \<and> i \<le> 2 * e"
proof -
  have r: "r = rd e" and rlt: "rd e < 2 powi 1024"
    using assms(2) by (auto simp add: fl_def Let_def split: if_splits)
  have "2 powi (- 1022) \<le> e"
    using tiny_le assms(1) by linarith
  from rd_error [OF this] have "\<bar>r - e\<bar> \<le> e / 2 ^ 53"
    by (simp only: r)
  then have re: "r - e \<le> e / 2 ^ 53" "- (r - e) \<le> e / 2 ^ 53"
    unfolding abs_le_iff by blast+
  have r1: "1 \<le> r"
    using rd_mono [OF assms(1)] by (simp add: r rd_one)
  let ?z = "r / (125 / 2)"
  have z: "2 powi (- 1022) \<le> ?z"
    using tiny_le r1 by (simp add: field_simps)
  from rd_error [OF z] have "\<bar>rd ?z - ?z\<bar> \<le> ?z / 2 ^ 53" .
  then have ze: "rd ?z - ?z \<le> ?z / 2 ^ 53" "- (rd ?z - ?z) \<le> ?z / 2 ^ 53"
    unfolding abs_le_iff by blast+
  have "?z \<le> r"
    using r1 by simp
  then have "rd ?z \<le> rd r"
    by (rule rd_mono)
  then have zr: "rd ?z \<le> r"
    by (simp add: r rd_idem)
  have z0: "0 \<le> rd ?z"
    using r1 by (intro rd_nonneg) simp
  have "fl ?z = Fin (rd ?z)"
    using zr rlt z0 powi_two_pos [of 1024] by (simp add: fl_def Let_def r)
  then have "animateIncrement (Fin 0) (Fin e) (Fin 1000) = Fin (rd ?z)"
    by (simp add: animateIncrement_def fl_62_5 assms(2))
  moreover have "e / 64 \<le> rd ?z"
    using re(2) ze(2) assms(1) by simp
  moreover have "rd ?z \<le> 2 * e"
    using re(1) zr assms(1) by simp
  ultimately show ?thesis
    by blast
qed


lemma animation_cleared_stays:
  assumes "snd (animateValue k start endValue duration)"
  shows "animateValue (Suc k) start endValue duration = animateValue k start endValue duration"
proof -
  obtain c where "animateValue k start endValue duration = (c, True)"
    using assms by (cases "animateValue k start endValue duration") simp
  then show ?thesis
    by (simp add: Let_def)
qed

lemma animation_cleared_at_end:
  assumes "snd (animateValue k start endValue duration)"
  shows "fst (animateValue k start endValue duration) = endValue"
  using assms
proof (induction k)
  case 0
  then show ?case
    by simp
next
  case (Suc k)
  then show ?case
    by (auto simp add: Let_def split: prod.splits if_splits)
qed

lemma animation_progress:
  assumes "1 \<le> e" and "fl e = Fin r"
  shows "snd (animateValue k (Fin 0) (Fin e) (Fin 1000)) \<or>
         (\<exists>x. fst (animateValue k (Fin 0) (Fin e) (Fin 1000)) = Fin x \<and>
              of_nat k * e / 128 \<le> x \<and> x < e)"
proof (induction k)
  case 0
  then show ?case
    using assms(1) by simp
next
  case (Suc k)
  obtain i where i: "animateIncrement (Fin 0) (Fin e) (Fin 1000) = Fin i" "e / 64 \<le> i" "i \<le> 2 * e"
    using increment_bounds [OF assms] by blast
  have ipos: "0 < i"
    using i(2) assms(1) by simp
  show ?case
  proof (cases "snd (animateValue k (Fin 0) (Fin e) (Fin 1000))")
    case True
    then have "animateValue (Suc k) (Fin 0) (Fin e) (Fin 1000) = animateValue k (Fin 0) (Fin e) (Fin 1000)"
      by (rule animation_cleared_stays)
    with True show ?thesis
      by (simp del: animateValue.simps)
  next
    case False
    with Suc obtain x where x: "fst (animateValue k (Fin 0) (Fin e) (Fin 1000)) = Fin x"
        "of_nat k * e / 128 \<le> x" "x < e"
      by blast
    have st: "animateValue k (Fin 0) (Fin e) (Fin 1000) = (Fin x, False)"
      using False x(1) by (simp add: prod_eq_iff)
    have "(0::rat) \<le> of_nat k * e"
      using assms(1) by (intro mult_nonneg_nonneg) simp_all
    then have x0: "0 \<le> x"
      using x(2) by simp
    have z: "2 powi (- 1022) \<le> x + i"
      using tiny_le x0 i(2) assms(1) by linarith
    from rd_error [OF z] have "\<bar>rd (x + i) - (x + i)\<bar> \<le> (x + i) / 2 ^ 53" .
    then have ze: "- (rd (x + i) - (x + i)) \<le> (x + i) / 2 ^ 53"
      unfolding abs_le_iff by blast
    have grow: "x + e / 128 \<le> rd (x + i)"
      using ze x(3) x0 i(2,3) assms(1) by simp
    show ?thesis
    proof (cases "x + i" rule: fl_cases)
      case 1
      then show ?thesis
        using st i(1) ipos by (simp add: Let_def)
    next
      case 2
      have "0 \<le> rd (x + i)"
        using x0 ipos by (intro rd_nonneg) simp
      with 2(2) powi_two_pos [of 1024] show ?thesis
        by linarith
    next
      case 3
      show ?thesis
      proof (cases "e \<le> rd (x + i)")
        case True
        then show ?thesis
          using st i(1) ipos 3(1) by (simp add: Let_def)
      next
        case False
        then have "animateValue (Suc k) (Fin 0) (Fin e) (Fin 1000) = (Fin (rd (x + i)), False)"
          using st i(1) ipos 3(1) by (simp add: Let_def)
        moreover have "of_nat (Suc k) * e / 128 \<le> rd (x + i)"
          using grow x(2) by (simp add: field_simps)
        ultimately show ?thesis
          using False by simp
      qed
    qed
  qed
qed

lemma animation_clears_finite:
  assumes "1 \<le> e"
  shows "animateValue 128 (Fin 0) (Fin e) (Fin 1000) = (Fin e, True)"
proof -
  have cl: "snd (animateValue 128 (Fin 0) (Fin e) (Fin 1000))"
  proof (cases e rule: fl_cases)
    case 1
    then have "animateIncrement (Fin 0) (Fin e) (Fin 1000) = PInf"
      by (simp add: animateIncrement_def fl_62_5)
    then have "snd (animateValue (Suc 0) (Fin 0) (Fin e) (Fin 1000))"
      by (simp add: Let_def)
    then have "\<And>k. snd (animateValue (Suc k) (Fin 0) (Fin e) (Fin 1000))"
      subgoal for k by (induction k) (simp_all only: animation_cleared_stays)
      done
    then show ?thesis
      by (simp only: eval_nat_numeral)
  next
    case 2
    have "0 \<le> rd e"
      using assms by (intro rd_nonneg) simp
    with 2(2) powi_two_pos [of 1024] show ?thesis
      by linarith
  next
    case 3
    from animation_progress [OF assms 3(1), of 128] show ?thesis
      by auto
  qed
  then show ?thesis
    using animation_cleared_at_end [OF cl] by (simp add: prod_eq_iff)
qed

lemma animation_clears_PInf:
  "animateValue (Suc k) (Fin 0) PInf (Fin 1000) = (PInf, True)"
proof (induction k)
  case 0
  show ?case
    by (simp add: Let_def animateIncrement_def fl_62_5)
next
  case (Suc k)
  then show ?case
    by (simp only: animation_cleared_stays snd_conv)
qed

lemma animation_never_clears_NaN:
  "animateValue (Suc k) (Fin 0) NaN (Fin 1000) = (NaN, False)"
proof (induction k)
  case 0
  show ?case
    by (simp add: Let_def animateIncrement_def fl_62_5)
next
  case (Suc k)
  have "animateValue (Suc (Suc k)) (Fin 0) NaN (Fin 1000) =
      (let (current, cleared) = animateValue (Suc k) (Fin 0) NaN (Fin 1000);
           increment = animateIncrement (Fin 0) NaN (Fin 1000)
       in if cleared then (current, True)
          else let current' = js_add current increment
               in if (js_gt increment (Fin 0) \<and> js_le NaN current') \<or>
                     (js_gt (Fin 0) increment \<and> js_le current' NaN)
                  then (NaN, True) else (current', False))"
    by (rule animateValue.simps)
  then show ?case
    by (simp only: Suc) (simp add: Let_def animateIncrement_def fl_62_5)
qed

lemma animation_never_clears_zero:
  "animateValue k (Fin 0) (Fin 0) (Fin 1000) = (Fin 0, False)"
proof (induction k)
  case 0
  show ?case
    by simp
next
  case (Suc k)
  have "animateValue (Suc k) (Fin 0) (Fin 0) (Fin 1000) =
      (let (current, cleared) = animateValue k (Fin 0) (Fin 0) (Fin 1000);
           increment = animateIncrement (Fin 0) (Fin 0) (Fin 1000)
       in if cleared then (current, True)
          else let current' = js_add current increment
               in if (js_gt increment (Fin 0) \<and> js_le (Fin 0) current') \<or>
                     (js_gt (Fin 0) increment \<and> js_le current' (Fin 0))
                  then (Fin 0, True) else (current', False))"
    by (rule animateValue.simps)
  then show ?case
    by (simp only: Suc) (simp add: Let_def animateIncrement_def fl_62_5)
qed

lemma animation_cleared_mono:
  assumes "snd (animateValue k start endValue duration)" and "k \<le> m"
  shows "animateValue m start endValue duration = animateValue k start endValue duration"
  using assms(2)
proof (induction m)
  case 0
  then show ?case
    by simp
next
  case (Suc m)
  show ?case
  proof (cases "k \<le> m")
    case True
    with Suc have eq: "animateValue m start endValue duration = animateValue k start endValue duration"
      by simp
    then have "snd (animateValue m start endValue duration)"
      using assms(1) by simp
    then have "animateValue (Suc m) start endValue duration = animateValue m start endValue duration"
      by (rule animation_cleared_stays)
    then show ?thesis
      by (simp only: eq)
  next
    case False
    with Suc.prems have "k = Suc m"
      by simp
    then show ?thesis
      by simp
  qed
qed

lemma floor_int_half: "\<lfloor>of_int n + 1 / (2::rat)\<rfloor> = n"
  by (rule floor_unique) simp_all

lemma js_round_whole: "js_round (Fin (of_int n)) = Fin (of_int n)"
  by (simp add: floor_int_half)

lemma js_round_idem [simp]: "js_round (js_round v) = js_round v"
  by (cases v) (simp_all add: floor_int_half)

section \<open>Confidence of the offline estimate\<close>

lemma remoteFailed_tryBlock:
  assumes "remoteFailed outcome"
  shows "tryBlock outcome = Threw []"
  using assms by (auto simp add: remoteFailed_def tryBlock_def split: fetch_outcome.splits option.splits)

lemma tryThrows_tryBlock:
  assumes "tryThrows outcome"
  obtains started where "tryBlock outcome = Threw started"
  using assms by (cases "tryBlock outcome") (simp_all add: tryThrows_def)

lemma remoteFailed_tryThrows:
  assumes "remoteFailed outcome"
  shows "tryThrows outcome"
  using remoteFailed_tryBlock [OF assms] by (simp add: tryThrows_def)

lemma heuristicConfidence_bounds:
  "62 \<le> heuristicConfidence distance weather traffic \<and>
   heuristicConfidence distance weather traffic \<le> 85"
  by (simp add: heuristicConfidence_def Let_def)

lemma predict_catch:
  assumes "tryBlock outcome = Threw started"
  shows "predictDeliveryTime distance numItems weather traffic outcome currentHour =
         catchBlock started distance weather traffic currentHour numItems"
  using assms by (simp add: predictDeliveryTime_def)

lemma catchBlock_confidence:
  "confidencePercent (catchBlock started distance weather traffic currentHour numItems) =
   heuristicConfidence distance weather traffic - 10"
  by (simp add: catchBlock_def calculateDeliveryTime_def Let_def)

lemma calc_confidence [simp]:
  "confidence (calculateDeliveryTime distance weather traffic hour items) =
   heuristicConfidence distance weather traffic"
  by (simp add: calculateDeliveryTime_def)

text \<open>
  Claim C3.  On every path into the \<^verbatim>\<open>catch\<close> block (a rejected fetch, a response that
  is not ok, a body that does not parse or has \<open>success = false\<close>, a body without
  factors) the confidence put on the page equals \<open>max 0 (c - 10)\<close>, where \<open>c\<close> is the
  confidence the offline estimator returned.
\<close>

theorem fallback_confidence_offline_penalty:
  assumes "remoteFailed outcome \<or> tryThrows outcome"
  shows "confidencePercent (predictDeliveryTime distance numItems weather traffic outcome currentHour) =
         max 0 (confidence (calculateDeliveryTime distance weather traffic currentHour numItems) - 10)"
proof -
  from assms have "tryThrows outcome"
    by (auto dest: remoteFailed_tryThrows)
  then obtain started where "tryBlock outcome = Threw started"
    by (rule tryThrows_tryBlock)
  then have "confidencePercent (predictDeliveryTime distance numItems weather traffic outcome currentHour) =
      heuristicConfidence distance weather traffic - 10"
    by (simp only: predict_catch catchBlock_confidence)
  moreover have "62 \<le> heuristicConfidence distance weather traffic"
    using heuristicConfidence_bounds by blast
  ultimately show ?thesis
    by simp
qed

theorem fallback_confidence_offline_penalty_witness:
  "remoteFailed (Response False None) \<and>
   confidencePercent (predictDeliveryTime (Fin 12) (Fin 3) ''Heavy Rain'' ''Very High''
     (Response False None) 20) = 52 \<and>
   confidence (calculateDeliveryTime (Fin 12) ''Heavy Rain'' ''Very High'' 20 (Fin 3)) = 62"
proof -
  have f: "remoteFailed (Response False None)"
    by (simp add: remoteFailed_def)
  have c: "confidence (calculateDeliveryTime (Fin 12) ''Heavy Rain'' ''Very High'' 20 (Fin 3)) = 62"
    by (simp add: heuristicConfidence_def)
  from f have "remoteFailed (Response False None) \<or> tryThrows (Response False None)"
    by simp
  from fallback_confidence_offline_penalty [OF this, of "Fin 12" "Fin 3" "''Heavy Rain''" "''Very High''" 20]
  show ?thesis
    using f c by simp
qed

text \<open>
  The orchestrator, in contrast to the estimator, depends on the ambient state: the
  same submission at two hours of the clock gives two pages.
\<close>

lemma orchestrator_reads_clock:
  "predictDeliveryTime_page
     \<lparr>clockHour = 20, randomDraws = [], mapGlobal = False, routeLayerGlobal = False\<rparr>
     (Fin 5) (Fin 2) ''Clear'' ''Low'' Rejected \<noteq>
   predictDeliveryTime_page
     \<lparr>clockHour = 10, randomDraws = [], mapGlobal = False, routeLayerGlobal = False\<rparr>
     (Fin 5) (Fin 2) ''Clear'' ''Low'' Rejected"
proof
  assume "predictDeliveryTime_page
     \<lparr>clockHour = 20, randomDraws = [], mapGlobal = False, routeLayerGlobal = False\<rparr>
     (Fin 5) (Fin 2) ''Clear'' ''Low'' Rejected =
   predictDeliveryTime_page
     \<lparr>clockHour = 10, randomDraws = [], mapGlobal = False, routeLayerGlobal = False\<rparr>
     (Fin 5) (Fin 2) ''Clear'' ''Low'' Rejected"
  then have "peakHourText (catchBlock [] (Fin 5) ''Clear'' ''Low'' 20 (Fin 2)) =
      peakHourText (catchBlock [] (Fin 5) ''Clear'' ''Low'' 10 (Fin 2))"
    by (simp add: predictDeliveryTime_page_def predictDeliveryTime_def tryBlock_def)
  then show False
    by (simp add: catchBlock_def calculateDeliveryTime_def Let_def isPeakHour_def)
qed


text \<open>
  Claim C8.  For every weather, traffic and distance the estimator's confidence lies
  between 62 and 85, and the confidence shown in offline mode, ten points lower, is
  at least 52: the floor at 0 is never reached.
\<close>

theorem heuristic_confidence_range:
  "62 \<le> confidence (calculateDeliveryTime distance weather traffic hour items) \<and>
   confidence (calculateDeliveryTime distance weather traffic hour items) \<le> 85 \<and>
   52 \<le> confidencePercent (catchBlock started distance weather traffic hour items) \<and>
   confidencePercent (catchBlock started distance weather traffic hour items) =
     confidence (calculateDeliveryTime distance weather traffic hour items) - 10"
  using heuristicConfidence_bounds [of distance weather traffic]
  by (simp add: catchBlock_confidence)

section \<open>Monotonicity of the estimated time\<close>

lemma fl_12: "fl 12 = Fin 12"
  using fl_small_int [of 12] by simp

lemma weatherMultipliers_eval:
  "weatherMultipliers = map_of
     [(''Clear'', Fin 1), (''Cloudy'', Fin (4728779608739021 / 4503599627370496)),
      (''Hot'', Fin (4953959590107546 / 4503599627370496)),
      (''Rain'', Fin (5854679515581645 / 4503599627370496)),
      (''Heavy Rain'', Fin (7205759403792794 / 4503599627370496))]"
  by (simp only: weatherMultipliers_def fl_literals)

lemma trafficMultipliers_eval:
  "trafficMultipliers = map_of
     [(''Low'', Fin 1), (''Medium'', Fin (5404319552844595 / 4503599627370496)),
      (''High'', Fin (6755399441055744 / 4503599627370496)),
      (''Very High'', Fin (8106479329266893 / 4503599627370496))]"
  by (simp only: trafficMultipliers_def fl_literals)

lemma weather_multiplier_pos:
  assumes "weatherSeverity weather \<noteq> None"
  shows "\<exists>r. weatherMultipliers weather = Some (Fin r) \<and> 0 < r"
proof -
  from assms
  have "case weatherMultipliers weather of Some (Fin r) \<Rightarrow> 0 < r | _ \<Rightarrow> False"
    by (auto simp add: weatherSeverity_def weatherMultipliers_eval split: if_splits)
  then show ?thesis
    by (auto split: option.splits jsnum.splits)
qed

lemma traffic_multiplier_pos:
  assumes "trafficSeverity traffic \<noteq> None"
  shows "\<exists>r. trafficMultipliers traffic = Some (Fin r) \<and> 0 < r"
proof -
  from assms
  have "case trafficMultipliers traffic of Some (Fin r) \<Rightarrow> 0 < r | _ \<Rightarrow> False"
    by (auto simp add: trafficSeverity_def trafficMultipliers_eval split: if_splits)
  then show ?thesis
    by (auto split: option.splits jsnum.splits)
qed

lemma weather_multiplier_mono:
  assumes "weatherSeverity weather = Some i" and "weatherSeverity weather' = Some j" and "i \<le> j"
  shows "\<exists>r s. weatherMultipliers weather = Some (Fin r) \<and>
           weatherMultipliers weather' = Some (Fin s) \<and> 0 < r \<and> r \<le> s"
proof -
  from assms
  have "case (weatherMultipliers weather, weatherMultipliers weather') of
          (Some (Fin r), Some (Fin s)) \<Rightarrow> 0 < r \<and> r \<le> s | _ \<Rightarrow> False"
    by (auto simp add: weatherSeverity_def weatherMultipliers_eval split: if_splits)
  then show ?thesis
    by (cases "weatherMultipliers weather"; cases "weatherMultipliers weather'")
      (auto split: jsnum.splits)
qed

lemma traffic_multiplier_mono:
  assumes "trafficSeverity traffic = Some i" and "trafficSeverity traffic' = Some j" and "i \<le> j"
  shows "\<exists>r s. trafficMultipliers traffic = Some (Fin r) \<and>
           trafficMultipliers traffic' = Some (Fin s) \<and> 0 < r \<and> r \<le> s"
proof -
  from assms
  have "case (trafficMultipliers traffic, trafficMultipliers traffic') of
          (Some (Fin r), Some (Fin s)) \<Rightarrow> 0 < r \<and> r \<le> s | _ \<Rightarrow> False"
    by (auto simp add: trafficSeverity_def trafficMultipliers_eval split: if_splits)
  then show ?thesis
    by (cases "trafficMultipliers traffic"; cases "trafficMultipliers traffic'")
      (auto split: jsnum.splits)
qed

lemma distance_times_four_nonneg:
  assumes "js_le (Fin 0) distance"
  shows "js_le (Fin 0) (js_mul distance (Fin 4))"
  using assms by (rule js_mul_nonneg) simp

lemma adjustedBaseTime_nonneg:
  assumes "js_le (Fin 0) distance"
    and "weatherSeverity weather \<noteq> None" and "trafficSeverity traffic \<noteq> None"
  shows "js_le (Fin 0) (adjustedBaseTime distance weather traffic)"
proof -
  obtain r where r: "weatherMultipliers weather = Some (Fin r)" "0 < r"
    using weather_multiplier_pos [OF assms(2)] by blast
  obtain s where s: "trafficMultipliers traffic = Some (Fin s)" "0 < s"
    using traffic_multiplier_pos [OF assms(3)] by blast
  have "js_le (Fin 0) (js_mul (js_mul (js_mul distance (Fin 4)) (Fin r)) (Fin s))"
    by (intro js_mul_nonneg distance_times_four_nonneg assms(1) r(2) s(2))
  then show ?thesis
    by (simp add: adjustedBaseTime_def to_number_def r(1) s(1))
qed

lemma fl_1_15_pos: "\<exists>c. fl 1.15 = Fin c \<and> 0 < c"
proof (intro exI conjI)
  show "fl 1.15 = Fin (5179139571476070 / 4503599627370496)"
    by (rule fl_1_15)
  show "(0::rat) < 5179139571476070 / 4503599627370496"
    by simp
qed

lemma baseTime_nonneg:
  assumes "js_le (Fin 0) distance"
    and "weatherSeverity weather \<noteq> None" and "trafficSeverity traffic \<noteq> None"
  shows "js_le (Fin 0) (baseTime distance weather traffic hour)"
proof -
  obtain c where c: "fl 1.15 = Fin c" "0 < c"
    using fl_1_15_pos by blast
  have "js_le (Fin 0) (adjustedBaseTime distance weather traffic)"
    using assms by (rule adjustedBaseTime_nonneg)
  then show ?thesis
    unfolding baseTime_def c(1) by (simp add: js_mul_nonneg c(2))
qed

lemma adjustedBaseTime_traffic_mono:
  assumes "js_le (Fin 0) distance" and "weatherSeverity weather \<noteq> None"
    and "trafficSeverity traffic = Some i" and "trafficSeverity traffic' = Some j" and "i \<le> j"
  shows "js_le (adjustedBaseTime distance weather traffic) (adjustedBaseTime distance weather traffic')"
proof -
  obtain w where w: "weatherMultipliers weather = Some (Fin w)" "0 < w"
    using weather_multiplier_pos [OF assms(2)] by blast
  obtain r s where rs: "trafficMultipliers traffic = Some (Fin r)"
      "trafficMultipliers traffic' = Some (Fin s)" "0 < r" "r \<le> s"
    using traffic_multiplier_mono [OF assms(3-5)] by blast
  have "js_le (Fin 0) (js_mul (js_mul distance (Fin 4)) (Fin w))"
    by (intro js_mul_nonneg distance_times_four_nonneg assms(1) w(2))
  then have "js_le (js_mul (js_mul (js_mul distance (Fin 4)) (Fin w)) (Fin r))
      (js_mul (js_mul (js_mul distance (Fin 4)) (Fin w)) (Fin s))"
    using rs(3,4) by (rule js_mul_mono_right)
  then show ?thesis
    by (simp add: adjustedBaseTime_def to_number_def w(1) rs(1,2))
qed

lemma adjustedBaseTime_weather_mono:
  assumes "js_le (Fin 0) distance" and "trafficSeverity traffic \<noteq> None"
    and "weatherSeverity weather = Some i" and "weatherSeverity weather' = Some j" and "i \<le> j"
  shows "js_le (adjustedBaseTime distance weather traffic) (adjustedBaseTime distance weather' traffic)"
proof -
  obtain t where t: "trafficMultipliers traffic = Some (Fin t)" "0 < t"
    using traffic_multiplier_pos [OF assms(2)] by blast
  obtain r s where rs: "weatherMultipliers weather = Some (Fin r)"
      "weatherMultipliers weather' = Some (Fin s)" "0 < r" "r \<le> s"
    using weather_multiplier_mono [OF assms(3-5)] by blast
  have d: "js_le (Fin 0) (js_mul distance (Fin 4))"
    using assms(1) by (rule distance_times_four_nonneg)
  then have "js_le (js_mul (js_mul distance (Fin 4)) (Fin r)) (js_mul (js_mul distance (Fin 4)) (Fin s))"
    using rs(3,4) by (rule js_mul_mono_right)
  moreover have "js_le (Fin 0) (js_mul (js_mul distance (Fin 4)) (Fin r))"
    using d rs(3) by (rule js_mul_nonneg)
  ultimately have "js_le (js_mul (js_mul (js_mul distance (Fin 4)) (Fin r)) (Fin t))
      (js_mul (js_mul (js_mul distance (Fin 4)) (Fin s)) (Fin t))"
    using t(2) by (rule js_mul_mono_left)
  then show ?thesis
    by (simp add: adjustedBaseTime_def to_number_def t(1) rs(1,2))
qed

lemma surcharge_mono:
  assumes "js_le (Fin 0) a" and "js_le a b"
  shows "js_le (if isPeakHour hour then js_mul a (fl 1.15) else a)
               (if isPeakHour hour then js_mul b (fl 1.15) else b)"
proof -
  obtain c where c: "fl 1.15 = Fin c" "0 < c"
    using fl_1_15_pos by blast
  show ?thesis
    unfolding c(1) using assms c(2) by (simp add: js_mul_mono_left)
qed

lemma prepTime_nonneg:
  assumes "js_le (Fin 0) items"
  shows "js_le (Fin 0) (prepTime items)"
  unfolding prepTime_def using assms by (intro js_add_nonneg js_mul_nonneg) simp_all

lemma totalTime_mono:
  assumes "js_le (Fin 0) items"
    and "js_le (Fin 0) (baseTime distance weather traffic hour)"
    and "js_le (baseTime distance weather traffic hour) (baseTime distance' weather' traffic' hour')"
  shows "js_le (totalTime distance weather traffic hour items)
               (totalTime distance' weather' traffic' hour' items)"
  unfolding totalTime_def
  by (intro js_round_mono js_add_mono_right prepTime_nonneg assms)

lemma calc_time [simp]:
  "time (calculateDeliveryTime distance weather traffic hour items) =
   totalTime distance weather traffic hour items"
  by (simp add: calculateDeliveryTime_def)

text \<open>
  Claim C5.  With distance, weather, hour and item count fixed (a distance and an
  item count that are not negative, a weather of the form's domain), a traffic
  value of higher severity in the order Low, Medium, High, Very High never gives a
  smaller total time.
\<close>

theorem traffic_monotone:
  assumes "js_le (Fin 0) distance" and "js_le (Fin 0) items"
    and "weatherSeverity weather \<noteq> None"
    and "trafficSeverity traffic = Some i" and "trafficSeverity traffic' = Some j" and "i \<le> j"
  shows "js_le (time (calculateDeliveryTime distance weather traffic hour items))
               (time (calculateDeliveryTime distance weather traffic' hour items))"
proof -
  have t: "trafficSeverity traffic \<noteq> None"
    using assms(4) by simp
  have "js_le (adjustedBaseTime distance weather traffic) (adjustedBaseTime distance weather traffic')"
    using assms(1,3-6) by (rule adjustedBaseTime_traffic_mono)
  with adjustedBaseTime_nonneg [OF assms(1,3) t]
  have "js_le (baseTime distance weather traffic hour) (baseTime distance weather traffic' hour)"
    unfolding baseTime_def by (rule surcharge_mono)
  with assms(2) baseTime_nonneg [OF assms(1,3) t]
  have "js_le (totalTime distance weather traffic hour items)
              (totalTime distance weather traffic' hour items)"
    by (rule totalTime_mono)
  then show ?thesis
    by simp
qed

theorem traffic_monotone_witness:
  "js_le (Fin 0) (Fin 5) \<and> js_le (Fin 0) (Fin 2) \<and> weatherSeverity ''Clear'' \<noteq> None \<and>
   trafficSeverity ''Low'' = Some 0 \<and> trafficSeverity ''Very High'' = Some 3 \<and> (0::nat) \<le> 3 \<and>
   js_le (time (calculateDeliveryTime (Fin 5) ''Clear'' ''Low'' 10 (Fin 2)))
         (time (calculateDeliveryTime (Fin 5) ''Clear'' ''Very High'' 10 (Fin 2)))"
proof -
  have h1: "js_le (Fin 0) (Fin 5)" and h2: "js_le (Fin 0) (Fin 2)"
    by simp_all
  have h3: "weatherSeverity ''Clear'' \<noteq> None"
    by (simp add: weatherSeverity_def)
  have h4: "trafficSeverity ''Low'' = Some 0" and h5: "trafficSeverity ''Very High'' = Some 3"
    by (simp_all add: trafficSeverity_def)
  have h6: "(0::nat) \<le> 3"
    by simp
  from traffic_monotone [OF h1 h2 h3 h4 h5 h6, of 10] h1 h2 h3 h4 h5 h6 show ?thesis
    by (intro conjI)
qed

text \<open>
  Claim C9.  With distance, traffic, hour and item count fixed (a distance and an
  item count that are not negative, a traffic of the form's domain), a weather of
  higher severity in the order Clear, Cloudy, Hot, Rain, Heavy Rain never gives a
  smaller total time.
\<close>

theorem weather_monotone:
  assumes "js_le (Fin 0) distance" and "js_le (Fin 0) items"
    and "trafficSeverity traffic \<noteq> None"
    and "weatherSeverity weather = Some i" and "weatherSeverity weather' = Some j" and "i \<le> j"
  shows "js_le (time (calculateDeliveryTime distance weather traffic hour items))
               (time (calculateDeliveryTime distance weather' traffic hour items))"
proof -
  have w: "weatherSeverity weather \<noteq> None"
    using assms(4) by simp
  have "js_le (adjustedBaseTime distance weather traffic) (adjustedBaseTime distance weather' traffic)"
    using assms(1,3-6) by (rule adjustedBaseTime_weather_mono)
  with adjustedBaseTime_nonneg [OF assms(1) w assms(3)]
  have "js_le (baseTime distance weather traffic hour) (baseTime distance weather' traffic hour)"
    unfolding baseTime_def by (rule surcharge_mono)
  with assms(2) baseTime_nonneg [OF assms(1) w assms(3)]
  have "js_le (totalTime distance weather traffic hour items)
              (totalTime distance weather' traffic hour items)"
    by (rule totalTime_mono)
  then show ?thesis
    by simp
qed

theorem weather_monotone_witness:
  "js_le (Fin 0) (Fin 8) \<and> js_le (Fin 0) (Fin 1) \<and> trafficSeverity ''High'' \<noteq> None \<and>
   weatherSeverity ''Cloudy'' = Some 1 \<and> weatherSeverity ''Heavy Rain'' = Some 4 \<and> (1::nat) \<le> 4 \<and>
   js_le (time (calculateDeliveryTime (Fin 8) ''Cloudy'' ''High'' 13 (Fin 1)))
         (time (calculateDeliveryTime (Fin 8) ''Heavy Rain'' ''High'' 13 (Fin 1)))"
proof -
  have h1: "js_le (Fin 0) (Fin 8)" and h2: "js_le (Fin 0) (Fin 1)"
    by simp_all
  have h3: "trafficSeverity ''High'' \<noteq> None"
    by (simp add: trafficSeverity_def)
  have h4: "weatherSeverity ''Cloudy'' = Some 1" and h5: "weatherSeverity ''Heavy Rain'' = Some 4"
    by (simp_all add: weatherSeverity_def)
  have h6: "(1::nat) \<le> 4"
    by simp
  from weather_monotone [OF h1 h2 h3 h4 h5 h6, of 13] h1 h2 h3 h4 h5 h6 show ?thesis
    by (intro conjI)
qed

section \<open>The preparation time is a lower bound\<close>

lemma js_nonneg_cases:
  assumes "js_le (Fin 0) a"
  obtains x where "a = Fin x" and "0 \<le> x" | "a = PInf"
  using assms by (cases a) simp_all

lemma prepTime_cases:
  assumes "0 \<le> n"
  shows "prepTime (Fin (of_int n)) = PInf \<or>
         (\<exists>y. prepTime (Fin (of_int n)) = Fin y \<and> of_int \<lfloor>y\<rfloor> = y \<and> fl y = Fin y \<and> 12 \<le> y)"
proof -
  have nn: "js_le (Fin 0) (fl (of_int n * 2))"
    using assms by (intro fl_nonneg) simp
  then show ?thesis
  proof (cases rule: js_nonneg_cases)
    case 2
    then show ?thesis
      by (simp add: prepTime_def)
  next
    case (1 x)
    have "of_int n * 2 = (of_int (n * 2) :: rat)"
      by simp
    then have "of_int n * (2::rat) \<in> \<int>"
      by (simp only: Ints_of_int)
    with 1(1) have x: "x \<in> \<int>"
      by (rule fl_Fin_Ints)
    have p: "prepTime (Fin (of_int n)) = fl (12 + x)"
      using 1(1) by (simp add: prepTime_def)
    have "js_le (fl 12) (fl (12 + x))"
      using 1(2) by (intro fl_mono) simp
    then have ge: "js_le (Fin 12) (fl (12 + x))"
      by (simp only: fl_12)
    show ?thesis
    proof (cases "fl (12 + x)")
      case (Fin y)
      have "12 + x \<in> \<int>"
        using x by (intro Ints_add) simp_all
      with Fin have "y \<in> \<int>"
        by (rule fl_Fin_Ints)
      then have "of_int \<lfloor>y\<rfloor> = y"
        by (auto elim: Ints_cases)
      moreover have "fl y = Fin y"
        using Fin by (rule fl_Fin_fix)
      moreover have "12 \<le> y"
        using ge Fin by simp
      ultimately show ?thesis
        using p Fin by simp
    qed (use ge p in simp_all)
  qed
qed

lemma js_add_ge_left:
  assumes "p = PInf \<or> (\<exists>y. p = Fin y \<and> fl y = Fin y)" and "js_le (Fin 0) a"
  shows "js_le p (js_add p a)"
  using assms(2)
proof (cases rule: js_nonneg_cases)
  case (1 x)
  from assms(1) show ?thesis
  proof
    assume "p = PInf"
    then show ?thesis
      using 1 by simp
  next
    assume "\<exists>y. p = Fin y \<and> fl y = Fin y"
    then obtain y where y: "p = Fin y" "fl y = Fin y"
      by blast
    have "js_le (fl y) (fl (y + x))"
      using 1(2) by (intro fl_mono) simp
    then show ?thesis
      using y 1(1) by simp
  qed
next
  case 2
  with assms(1) show ?thesis
    by auto
qed

lemma js_round_ge:
  assumes "js_le p a" and "p = PInf \<or> wholeNumber p"
  shows "js_le p (js_round a)"
  using assms(2)
proof
  assume "p = PInf"
  with assms(1) show ?thesis
    by (cases a) simp_all
next
  assume "wholeNumber p"
  with assms(1) show ?thesis
    by (rule js_round_ge_whole)
qed

lemma prepTime_exact:
  assumes "0 \<le> n" and "n < 2 ^ 51"
  shows "prepTime (Fin (of_int n)) = Fin (of_int (12 + 2 * n))"
proof -
  have "fl (of_int (n * 2)) = Fin (of_int (n * 2))"
    using assms by (intro fl_small_int) simp
  moreover have "fl (of_int (12 + n * 2)) = Fin (of_int (12 + n * 2))"
    using assms by (intro fl_small_int) simp
  ultimately show ?thesis
    by (simp add: prepTime_def mult.commute)
qed

lemma totalTime_lower_bounds:
  assumes "js_le (Fin 0) distance" and "0 \<le> n"
    and "weatherSeverity weather \<noteq> None" and "trafficSeverity traffic \<noteq> None"
  shows "js_le (prepTime (Fin (of_int n))) (totalTime distance weather traffic hour (Fin (of_int n)))"
    and "js_le (Fin 12) (totalTime distance weather traffic hour (Fin (of_int n)))"
proof -
  let ?p = "prepTime (Fin (of_int n))"
  let ?b = "baseTime distance weather traffic hour"
  have b: "js_le (Fin 0) ?b"
    using assms(1,3,4) by (rule baseTime_nonneg)
  from prepTime_cases [OF assms(2)]
  have c: "?p = PInf \<or> (\<exists>y. ?p = Fin y \<and> of_int \<lfloor>y\<rfloor> = y \<and> fl y = Fin y \<and> 12 \<le> y)" .
  then have "?p = PInf \<or> (\<exists>y. ?p = Fin y \<and> fl y = Fin y)"
    by blast
  then have "js_le ?p (js_add ?p ?b)"
    using b by (rule js_add_ge_left)
  moreover have "?p = PInf \<or> wholeNumber ?p"
    using c by (auto simp add: wholeNumber_def)
  ultimately show 1: "js_le ?p (totalTime distance weather traffic hour (Fin (of_int n)))"
    unfolding totalTime_def by (rule js_round_ge)
  have "js_le (Fin 12) ?p"
    using c by auto
  then show "js_le (Fin 12) (totalTime distance weather traffic hour (Fin (of_int n)))"
    using 1 by (rule js_le_trans)
qed

text \<open>
  Claim C10.  For a distance that is not negative, a whole item count \<open>n \<ge> 0\<close> and
  weather and traffic of the form's domains, the total time is at least the
  preparation time, hence at least 12 minutes; the preparation time is
  \<open>12 + 2 * n\<close> (exactly so as long as no rounding occurs, here for \<open>n < 2 ^ 51\<close>).
\<close>

theorem time_at_least_prepTime:
  assumes "js_le (Fin 0) distance" and "0 \<le> n"
    and "weatherSeverity weather \<noteq> None" and "trafficSeverity traffic \<noteq> None"
  shows "js_le (prepTime (Fin (of_int n)))
           (time (calculateDeliveryTime distance weather traffic hour (Fin (of_int n)))) \<and>
         js_le (Fin 12) (time (calculateDeliveryTime distance weather traffic hour (Fin (of_int n)))) \<and>
         (n < 2 ^ 51 \<longrightarrow> prepTime (Fin (of_int n)) = Fin (of_int (12 + 2 * n)))"
  using totalTime_lower_bounds [OF assms] prepTime_exact [OF assms(2)] by simp

lemma fl_18: "fl 18 = Fin 18"
  using fl_small_int [of 18] by simp

lemma fl_6: "fl 6 = Fin 6"
  using fl_small_int [of 6] by simp

lemma prepTime_3: "prepTime (Fin 3) = Fin 18"
  by (simp add: prepTime_def fl_6 fl_18)

theorem time_at_least_prepTime_witness:
  "js_le (Fin 0) (Fin 12) \<and> (0::int) \<le> 3 \<and> weatherSeverity ''Heavy Rain'' \<noteq> None \<and>
   trafficSeverity ''Very High'' \<noteq> None \<and>
   js_le (Fin 18) (time (calculateDeliveryTime (Fin 12) ''Heavy Rain'' ''Very High'' 20 (Fin 3))) \<and>
   js_le (Fin 12) (time (calculateDeliveryTime (Fin 12) ''Heavy Rain'' ''Very High'' 20 (Fin 3)))"
proof -
  have h1: "js_le (Fin 0) (Fin 12)" and h2: "(0::int) \<le> 3"
    by simp_all
  have h3: "weatherSeverity ''Heavy Rain'' \<noteq> None"
    by (simp add: weatherSeverity_def)
  have h4: "trafficSeverity ''Very High'' \<noteq> None"
    by (simp add: trafficSeverity_def)
  from time_at_least_prepTime [OF h1 h2 h3 h4, of 20] h1 h2 h3 h4 show ?thesis
    by (simp add: prepTime_3)
qed

section \<open>A worked scenario\<close>

lemma fl_48: "fl 48 = Fin 48"
  using fl_small_int [of 48] by simp

lemma scenario_weather_step:
  "fl (10808639105689191 / 140737488355328) = Fin (1351079888211149 / 17592186044416)"
  using fl_near_even [of 6 "10808639105689191 / 140737488355328" 5404319552844596]
  by (simp add: power_int_minus)

lemma scenario_traffic_step:
  "fl (10952501185971903920443359190057 / 79228162514264337593543950336) =
   Fin (4863887597560137 / 35184372088832)"
  using fl_near [of 7 "10952501185971903920443359190057 / 79228162514264337593543950336"
      4863887597560137]
  by (simp add: power_int_minus)

lemma scenario_peak_step:
  "fl (12595376363867689778725840710795 / 79228162514264337593543950336) =
   Fin (5593470737194157 / 35184372088832)"
  using fl_near [of 7 "12595376363867689778725840710795 / 79228162514264337593543950336"
      5593470737194157]
  by (simp add: power_int_minus)

lemma scenario_sum_step:
  "fl (6226789434793133 / 35184372088832) = Fin (6226789434793133 / 35184372088832)"
  using fl_near [of 7 "6226789434793133 / 35184372088832" 6226789434793133]
  by (simp add: power_int_minus)

lemma fl_1_15_normal: "fl (23 / 20) = Fin (2589569785738035 / 2251799813685248)"
  using fl_1_15 by simp

lemma scenario_adjusted:
  "adjustedBaseTime (Fin 12) ''Heavy Rain'' ''Very High'' = Fin (4863887597560137 / 35184372088832)"
  by (simp add: adjustedBaseTime_def to_number_def weatherMultipliers_eval trafficMultipliers_eval
      fl_48 scenario_weather_step scenario_traffic_step)

lemma scenario_base:
  "baseTime (Fin 12) ''Heavy Rain'' ''Very High'' 20 = Fin (5593470737194157 / 35184372088832)"
  by (simp add: baseTime_def isPeakHour_def scenario_adjusted fl_1_15_normal scenario_peak_step)

lemma scenario_round: "\<lfloor>6226789434793133 / 35184372088832 + 1 / (2::rat)\<rfloor> = 177"
  by (rule floor_unique) simp_all

lemma scenario_total:
  "totalTime (Fin 12) ''Heavy Rain'' ''Very High'' 20 (Fin 3) = Fin 177"
  using scenario_round
  by (simp add: totalTime_def prepTime_3 scenario_base scenario_sum_step)

text \<open>
  Claim C2, as stated, fails: for distance 12, weather \<open>Heavy Rain\<close>, traffic
  \<open>Very High\<close>, hour 20 and 3 items the total is not 97.
\<close>

theorem heavy_rain_total_is_not_97:
  "time (calculateDeliveryTime (Fin 12) ''Heavy Rain'' ''Very High'' 20 (Fin 3)) \<noteq> Fin 97"
  by (simp add: scenario_total)

text \<open>
  Claim C2, amended.  For that input the preparation time is 18, the base time after
  the peak-hour surcharge is the Number nearest to \<open>12 * 4 * 1.6 * 1.8 * 1.15\<close>
  computed step by step, which is 158.976 up to rounding, the total is
  \<open>round (18 + 158.976) = 177\<close>, the confidence is \<open>85 - 10 - 8 - 5 = 62\<close>, the distance
  factor is \<open>High\<close> and the peak-hour tag is \<open>Yes (+15%)\<close>.
\<close>

theorem heavy_rain_scenario_values:
  "prepTime (Fin 3) = Fin 18 \<and>
   baseTime (Fin 12) ''Heavy Rain'' ''Very High'' 20 = Fin (5593470737194157 / 35184372088832) \<and>
   \<bar>5593470737194157 / 35184372088832 - (158.976::rat)\<bar> < 1 / 10 ^ 12 \<and>
   calculateDeliveryTime (Fin 12) ''Heavy Rain'' ''Very High'' 20 (Fin 3) =
     \<lparr>time = Fin 177, confidence = 62, weatherImpact = Some ''High'',
      trafficImpact = Some ''Very High'', distanceFactor = ''High'', peakHour = ''Yes (+15%)''\<rparr>"
proof (intro conjI)
  show "prepTime (Fin 3) = Fin 18"
    by (rule prepTime_3)
  show "baseTime (Fin 12) ''Heavy Rain'' ''Very High'' 20 = Fin (5593470737194157 / 35184372088832)"
    by (rule scenario_base)
  show "\<bar>5593470737194157 / 35184372088832 - (158.976::rat)\<bar> < 1 / 10 ^ 12"
    by simp
  show "calculateDeliveryTime (Fin 12) ''Heavy Rain'' ''Very High'' 20 (Fin 3) =
     \<lparr>time = Fin 177, confidence = 62, weatherImpact = Some ''High'',
      trafficImpact = Some ''Very High'', distanceFactor = ''High'', peakHour = ''Yes (+15%)''\<rparr>"
    by (simp add: calculateDeliveryTime_def scenario_total heuristicConfidence_def
        weatherImpacts_def trafficImpacts_def isPeakHour_def)
qed

section \<open>The fallback path\<close>

lemma validRequest_parts:
  assumes "validRequest distance numItems weather traffic"
  shows "js_le (Fin 0) distance" and "js_le (Fin 0) numItems"
    and "weatherSeverity weather \<noteq> None" and "trafficSeverity traffic \<noteq> None"
  using assms
  by (auto simp add: validRequest_def wholeNumber_def split: jsnum.splits)

lemma validRequest_items:
  assumes "validRequest distance numItems weather traffic"
  obtains n where "numItems = Fin (of_int n)" and "1 \<le> n"
proof -
  from assms obtain x where x: "numItems = Fin x" "of_int \<lfloor>x\<rfloor> = x" "1 \<le> x"
    by (auto simp add: validRequest_def wholeNumber_def split: jsnum.splits)
  have "numItems = Fin (of_int \<lfloor>x\<rfloor>)"
    by (simp only: x(1,2))
  moreover from x(3) have "1 \<le> \<lfloor>x\<rfloor>"
    by (simp add: le_floor_iff)
  ultimately show ?thesis
    by (rule that)
qed

lemma weatherImpacts_defined:
  assumes "weatherSeverity weather \<noteq> None"
  shows "weatherImpacts weather \<noteq> None"
  using assms by (auto simp add: weatherSeverity_def weatherImpacts_def split: if_splits)

lemma trafficImpacts_defined:
  assumes "trafficSeverity traffic \<noteq> None"
  shows "trafficImpacts traffic \<noteq> None"
  using assms by (auto simp add: trafficSeverity_def trafficImpacts_def split: if_splits)

lemma catchBlock_fields:
  "timeAnimations (catchBlock started distance weather traffic currentHour numItems) =
     started @ [time (calculateDeliveryTime distance weather traffic currentHour numItems)]"
  "offlineMode (catchBlock started distance weather traffic currentHour numItems)"
  "weatherImpactText (catchBlock started distance weather traffic currentHour numItems) =
     weatherImpacts weather"
  "trafficImpactText (catchBlock started distance weather traffic currentHour numItems) =
     trafficImpacts traffic"
  "distanceFactorText (catchBlock started distance weather traffic currentHour numItems) \<noteq> None"
  "peakHourText (catchBlock started distance weather traffic currentHour numItems) \<noteq> None"
  by (simp_all add: catchBlock_def calculateDeliveryTime_def Let_def)

text \<open>
  The time of a valid request's offline estimate is a whole number of at least 12
  minutes (or \<open>+\<infinity>\<close>), and the animation towards it is cleared within 128 callbacks,
  leaving the counter at that time.
\<close>

lemma valid_estimate_time:
  assumes "validRequest distance numItems weather traffic"
  shows "js_le (Fin 12) (time (calculateDeliveryTime distance weather traffic hour numItems))"
proof -
  note v = validRequest_parts [OF assms]
  obtain n where n: "numItems = Fin (of_int n)" "1 \<le> n"
    using assms by (rule validRequest_items)
  then have "0 \<le> n"
    by simp
  from totalTime_lower_bounds(2) [OF v(1) this v(3,4)] show ?thesis
    by (simp add: n(1))
qed

lemma animation_settles:
  assumes "js_le (Fin 12) endValue"
  shows "animateValue 128 (Fin 0) endValue (Fin 1000) = (endValue, True)"
proof (cases endValue)
  case (Fin e)
  with assms have "1 \<le> e"
    by simp
  then show ?thesis
    unfolding Fin by (rule animation_clears_finite)
next
  case PInf
  have "animateValue (Suc 127) (Fin 0) PInf (Fin 1000) = (PInf, True)"
    by (rule animation_clears_PInf)
  moreover have "Suc 127 = 128"
    by simp
  ultimately show ?thesis
    by (simp only: PInf)
qed (use assms in simp_all)

lemma estimate_time_rounded:
  "js_round (time (calculateDeliveryTime distance weather traffic hour items)) =
   time (calculateDeliveryTime distance weather traffic hour items)"
  by (simp add: totalTime_def)

lemma counter_settles_on_estimate:
  assumes "validRequest distance numItems weather traffic"
  shows "animateValue 128 (Fin 0) (time (calculateDeliveryTime distance weather traffic hour numItems))
           (Fin 1000) =
         (time (calculateDeliveryTime distance weather traffic hour numItems), True)"
    and "counterText 128 (time (calculateDeliveryTime distance weather traffic hour numItems)) =
         time (calculateDeliveryTime distance weather traffic hour numItems)"
proof -
  let ?T = "time (calculateDeliveryTime distance weather traffic hour numItems)"
  show a: "animateValue 128 (Fin 0) ?T (Fin 1000) = (?T, True)"
    using valid_estimate_time [OF assms] by (rule animation_settles)
  show "counterText 128 ?T = ?T"
    unfolding counterText_def a by (simp only: fst_conv estimate_time_rounded)
qed

lemma js_nonneg_not_NaN:
  assumes "js_le (Fin 0) v"
  shows "v \<noteq> NaN"
  using assms by auto

lemma js_ge_12_nonneg:
  assumes "js_le (Fin 12) v"
  shows "js_le (Fin 0) v"
  using assms by (cases v) simp_all

text \<open>
  Claim C4.  When the remote call fails (the fetch rejects, the response is not ok
  such as HTTP 500, the body does not parse, or it carries \<open>success = false\<close>), a
  valid request is answered by the \<^verbatim>\<open>catch\<close> block alone, and what it shows is
  complete: the offline confidence, one counter animation, towards a time that is a
  number and on which the counter settles, and all four factor texts.
\<close>

theorem remote_failure_gives_complete_fallback:
  assumes "remoteFailed outcome" and "validRequest distance numItems weather traffic"
  shows "predictDeliveryTime distance numItems weather traffic outcome currentHour =
           catchBlock [] distance weather traffic currentHour numItems \<and>
         offlineMode (predictDeliveryTime distance numItems weather traffic outcome currentHour) \<and>
         timeAnimations (predictDeliveryTime distance numItems weather traffic outcome currentHour) =
           [time (calculateDeliveryTime distance weather traffic currentHour numItems)] \<and>
         time (calculateDeliveryTime distance weather traffic currentHour numItems) \<noteq> NaN \<and>
         animateValue 128 (Fin 0)
           (time (calculateDeliveryTime distance weather traffic currentHour numItems)) (Fin 1000) =
           (time (calculateDeliveryTime distance weather traffic currentHour numItems), True) \<and>
         counterText 128 (time (calculateDeliveryTime distance weather traffic currentHour numItems)) =
           time (calculateDeliveryTime distance weather traffic currentHour numItems) \<and>
         weatherImpactText (predictDeliveryTime distance numItems weather traffic outcome currentHour) \<noteq> None \<and>
         trafficImpactText (predictDeliveryTime distance numItems weather traffic outcome currentHour) \<noteq> None \<and>
         distanceFactorText (predictDeliveryTime distance numItems weather traffic outcome currentHour) \<noteq> None \<and>
         peakHourText (predictDeliveryTime distance numItems weather traffic outcome currentHour) \<noteq> None"
proof -
  note v = validRequest_parts [OF assms(2)]
  have "tryBlock outcome = Threw []"
    using assms(1) by (rule remoteFailed_tryBlock)
  then have eq: "predictDeliveryTime distance numItems weather traffic outcome currentHour =
      catchBlock [] distance weather traffic currentHour numItems"
    by (rule predict_catch)
  have "time (calculateDeliveryTime distance weather traffic currentHour numItems) \<noteq> NaN"
    using valid_estimate_time [OF assms(2)] by (intro js_nonneg_not_NaN js_ge_12_nonneg)
  then show ?thesis
    unfolding eq
    using counter_settles_on_estimate [OF assms(2), of currentHour]
    by (simp add: catchBlock_fields weatherImpacts_defined [OF v(3)] trafficImpacts_defined [OF v(4)]
        del: calc_time)
qed

theorem remote_failure_gives_complete_fallback_witness:
  "remoteFailed (Response False None) \<and> validRequest (Fin 12) (Fin 3) ''Heavy Rain'' ''Very High'' \<and>
   predictDeliveryTime (Fin 12) (Fin 3) ''Heavy Rain'' ''Very High'' (Response False None) 20 =
     catchBlock [] (Fin 12) ''Heavy Rain'' ''Very High'' 20 (Fin 3) \<and>
   timeAnimations (predictDeliveryTime (Fin 12) (Fin 3) ''Heavy Rain'' ''Very High''
     (Response False None) 20) = [Fin 177] \<and>
   counterText 128 (Fin 177) = Fin 177 \<and>
   weatherImpactText (catchBlock [] (Fin 12) ''Heavy Rain'' ''Very High'' 20 (Fin 3)) = Some ''High'' \<and>
   trafficImpactText (catchBlock [] (Fin 12) ''Heavy Rain'' ''Very High'' 20 (Fin 3)) = Some ''Very High'' \<and>
   distanceFactorText (catchBlock [] (Fin 12) ''Heavy Rain'' ''Very High'' 20 (Fin 3)) = Some ''High'' \<and>
   peakHourText (catchBlock [] (Fin 12) ''Heavy Rain'' ''Very High'' 20 (Fin 3)) = Some ''Yes (+15%)''"
proof -
  have f: "remoteFailed (Response False None)"
    by (simp add: remoteFailed_def)
  have v: "validRequest (Fin 12) (Fin 3) ''Heavy Rain'' ''Very High''"
    by (simp add: validRequest_def wholeNumber_def weatherSeverity_def trafficSeverity_def)
  have t: "time (calculateDeliveryTime (Fin 12) ''Heavy Rain'' ''Very High'' 20 (Fin 3)) = Fin 177"
    by (simp add: scenario_total)
  from remote_failure_gives_complete_fallback [OF f v, of 20]
  have "predictDeliveryTime (Fin 12) (Fin 3) ''Heavy Rain'' ''Very High'' (Response False None) 20 =
      catchBlock [] (Fin 12) ''Heavy Rain'' ''Very High'' 20 (Fin 3)"
    and "timeAnimations (predictDeliveryTime (Fin 12) (Fin 3) ''Heavy Rain'' ''Very High''
      (Response False None) 20) = [Fin 177]"
    and "counterText 128 (Fin 177) = Fin 177"
    unfolding t by blast+
  moreover have "weatherImpactText (catchBlock [] (Fin 12) ''Heavy Rain'' ''Very High'' 20 (Fin 3)) = Some ''High''"
    and "trafficImpactText (catchBlock [] (Fin 12) ''Heavy Rain'' ''Very High'' 20 (Fin 3)) = Some ''Very High''"
    and "distanceFactorText (catchBlock [] (Fin 12) ''Heavy Rain'' ''Very High'' 20 (Fin 3)) = Some ''High''"
    and "peakHourText (catchBlock [] (Fin 12) ''Heavy Rain'' ''Very High'' 20 (Fin 3)) = Some ''Yes (+15%)''"
    by (simp_all add: catchBlock_def calculateDeliveryTime_def Let_def weatherImpacts_def
        trafficImpacts_def isPeakHour_def)
  ultimately show ?thesis
    using f v by (intro conjI)
qed

section \<open>Ranges of the displayed result\<close>

text \<open>
  When a response is ok and says \<open>success = true\<close> but has no factors, the
  \<^verbatim>\<open>catch\<close> block runs after the animation towards the remote time has been
  started: two timers write to the counter.  A timer whose target is \<open>NaN\<close> (no
  \<^verbatim>\<open>estimated_time\<close> in the response) is never cleared and writes \<open>NaN\<close> at every
  callback.
\<close>

lemma late_throw_page:
  assumes "success result" and "factors result = None"
  shows "predictDeliveryTime distance numItems weather traffic (Response True (Some result)) currentHour =
         catchBlock [estimated_time result] distance weather traffic currentHour numItems"
    and "timeAnimations
           (predictDeliveryTime distance numItems weather traffic (Response True (Some result)) currentHour) =
         [estimated_time result, time (calculateDeliveryTime distance weather traffic currentHour numItems)]"
  using assms by (simp_all add: predictDeliveryTime_def tryBlock_def catchBlock_fields del: calc_time)

lemma counter_of_absent_time: "counterText (Suc k) NaN = NaN"
  by (simp only: counterText_def animation_never_clears_NaN fst_conv js_round.simps)

lemma absent_time_not_cleared: "\<not> snd (animateValue k (Fin 0) NaN (Fin 1000))"
proof (cases k)
  case 0
  then show ?thesis
    by simp
next
  case (Suc j)
  show ?thesis
    unfolding Suc by (simp only: animation_never_clears_NaN snd_conv not_False_eq_True)
qed

text \<open>
  On that path, with no \<^verbatim>\<open>estimated_time\<close> in the response and a valid request, the
  counter ends on \<open>NaN\<close>; with \<^verbatim>\<open>estimated_time\<close> 0 it ends on 0: the offline
  estimate's animation is cleared after at most 128 callbacks, the remote one
  never, however late the second timer was started.
\<close>

lemma late_throw_counter_absent_time:
  assumes "validRequest distance numItems weather traffic" and "d + 128 \<le> k"
  shows "counterTextTwo d (Suc k) NaN
           (time (calculateDeliveryTime distance weather traffic hour numItems)) = Some NaN"
proof -
  let ?T = "time (calculateDeliveryTime distance weather traffic hour numItems)"
  have "snd (animateValue 128 (Fin 0) ?T (Fin 1000))"
    by (simp only: counter_settles_on_estimate(1) [OF assms(1)] snd_conv)
  moreover have "128 \<le> k - d"
    using assms(2) by simp
  ultimately have "animateValue (k - d) (Fin 0) ?T (Fin 1000) = animateValue 128 (Fin 0) ?T (Fin 1000)"
    by (rule animation_cleared_mono)
  then have "snd (animateValue (k - d) (Fin 0) ?T (Fin 1000))"
    by (simp only: counter_settles_on_estimate(1) [OF assms(1)] snd_conv)
  then show ?thesis
    using absent_time_not_cleared [of k] counter_of_absent_time [of k]
    by (simp del: calc_time animateValue.simps)
qed

lemma late_throw_counter_zero_time:
  assumes "validRequest distance numItems weather traffic" and "d + 128 \<le> k"
  shows "counterTextTwo d (Suc k) (Fin 0)
           (time (calculateDeliveryTime distance weather traffic hour numItems)) = Some (Fin 0)"
proof -
  let ?T = "time (calculateDeliveryTime distance weather traffic hour numItems)"
  have "snd (animateValue 128 (Fin 0) ?T (Fin 1000))"
    by (simp only: counter_settles_on_estimate(1) [OF assms(1)] snd_conv)
  moreover have "128 \<le> k - d"
    using assms(2) by simp
  ultimately have "animateValue (k - d) (Fin 0) ?T (Fin 1000) = animateValue 128 (Fin 0) ?T (Fin 1000)"
    by (rule animation_cleared_mono)
  then have "snd (animateValue (k - d) (Fin 0) ?T (Fin 1000))"
    by (simp only: counter_settles_on_estimate(1) [OF assms(1)] snd_conv)
  moreover have "counterText (Suc k) (Fin 0) = Fin 0"
    by (simp only: counterText_def animation_never_clears_zero fst_conv) (simp add: floor_int_half [of 0, simplified])
  ultimately show ?thesis
    by (simp add: animation_never_clears_zero del: calc_time animateValue.simps)
qed

text \<open>
  Claim C1, as stated, fails on the remote-success path: the confidence of the
  remote response goes to the page as it is.  A response with confidence 150 is
  shown with confidence 150.
\<close>

theorem remote_confidence_not_clamped:
  "validRequest (Fin 5) (Fin 2) ''Clear'' ''Low'' \<and>
   \<not> (0 \<le> confidencePercent (predictDeliveryTime (Fin 5) (Fin 2) ''Clear'' ''Low''
          (Response True (Some \<lparr>success = True, estimated_time = Fin 30, api_confidence = 150,
             factors = Some \<lparr>weather_impact = Some ''Minimal'', traffic_impact = Some ''Minimal'',
               distance_factor = Some ''Medium'', peak_hour = Some ''No''\<rparr>\<rparr>)) 10) \<and>
        confidencePercent (predictDeliveryTime (Fin 5) (Fin 2) ''Clear'' ''Low''
          (Response True (Some \<lparr>success = True, estimated_time = Fin 30, api_confidence = 150,
             factors = Some \<lparr>weather_impact = Some ''Minimal'', traffic_impact = Some ''Minimal'',
               distance_factor = Some ''Medium'', peak_hour = Some ''No''\<rparr>\<rparr>)) 10) \<le> 100)"
  by (simp add: validRequest_def wholeNumber_def weatherSeverity_def trafficSeverity_def
      predictDeliveryTime_def tryBlock_def)

text \<open>
  Claim C1, amended.  For every valid request:
  on each path into the \<^verbatim>\<open>catch\<close> block the confidence shown lies in \<open>[0, 100]\<close>;
  when the remote call fails (rejected fetch, response not ok, body that does not
  parse or has \<open>success = false\<close>) the counter has one animation, towards the
  offline estimate's time, which is at least 0 and on which the counter settles;
  when the \<^verbatim>\<open>try\<close> block completes (a response that is ok, with \<open>success = true\<close>
  and factors) the confidence shown is the remote response's own and the counter
  has one animation, towards the remote \<^verbatim>\<open>estimated_time\<close>, showing
  \<^verbatim>\<open>Math.round(estimated_time)\<close> once its timer is cleared; nothing is clamped.
\<close>

theorem predict_result_ranges:
  assumes "validRequest distance numItems weather traffic"
  shows "(tryThrows outcome \<longrightarrow>
            0 \<le> confidencePercent (predictDeliveryTime distance numItems weather traffic outcome currentHour) \<and>
            confidencePercent (predictDeliveryTime distance numItems weather traffic outcome currentHour) \<le> 100) \<and>
         (remoteFailed outcome \<longrightarrow>
            timeAnimations (predictDeliveryTime distance numItems weather traffic outcome currentHour) =
              [time (calculateDeliveryTime distance weather traffic currentHour numItems)] \<and>
            js_le (Fin 0) (time (calculateDeliveryTime distance weather traffic currentHour numItems)) \<and>
            snd (animateValue 128 (Fin 0)
              (time (calculateDeliveryTime distance weather traffic currentHour numItems)) (Fin 1000)) \<and>
            counterText 128 (time (calculateDeliveryTime distance weather traffic currentHour numItems)) =
              time (calculateDeliveryTime distance weather traffic currentHour numItems)) \<and>
         (\<not> tryThrows outcome \<longrightarrow>
            (\<exists>result. outcome = Response True (Some result) \<and> success result \<and>
               confidencePercent (predictDeliveryTime distance numItems weather traffic outcome currentHour) =
                 api_confidence result \<and>
               timeAnimations (predictDeliveryTime distance numItems weather traffic outcome currentHour) =
                 [estimated_time result] \<and>
               (\<forall>k. snd (animateValue k (Fin 0) (estimated_time result) (Fin 1000)) \<longrightarrow>
                  counterText k (estimated_time result) = js_round (estimated_time result))))"
proof -
  let ?P = "predictDeliveryTime distance numItems weather traffic outcome currentHour"
  let ?T = "time (calculateDeliveryTime distance weather traffic currentHour numItems)"
  have A: "0 \<le> confidencePercent ?P \<and> confidencePercent ?P \<le> 100" if "tryThrows outcome"
  proof -
    from that obtain started where "tryBlock outcome = Threw started"
      by (rule tryThrows_tryBlock)
    then have c: "confidencePercent ?P = heuristicConfidence distance weather traffic - 10"
      by (simp only: predict_catch catchBlock_confidence)
    from heuristicConfidence_bounds [of distance weather traffic] show ?thesis
      by (simp add: c)
  qed
  have B: "timeAnimations ?P = [?T] \<and> js_le (Fin 0) ?T \<and>
      snd (animateValue 128 (Fin 0) ?T (Fin 1000)) \<and> counterText 128 ?T = ?T"
    if "remoteFailed outcome"
  proof (intro conjI)
    from that have "tryBlock outcome = Threw []"
      by (rule remoteFailed_tryBlock)
    then show "timeAnimations ?P = [?T]"
      by (simp add: predict_catch catchBlock_fields del: calc_time)
    show "js_le (Fin 0) ?T"
      using valid_estimate_time [OF assms] by (rule js_ge_12_nonneg)
    show "snd (animateValue 128 (Fin 0) ?T (Fin 1000))"
      by (simp only: counter_settles_on_estimate(1) [OF assms] snd_conv)
    show "counterText 128 ?T = ?T"
      using assms by (rule counter_settles_on_estimate(2))
  qed
  have C: "\<exists>result. outcome = Response True (Some result) \<and> success result \<and>
        confidencePercent ?P = api_confidence result \<and>
        timeAnimations ?P = [estimated_time result] \<and>
        (\<forall>k. snd (animateValue k (Fin 0) (estimated_time result) (Fin 1000)) \<longrightarrow>
           counterText k (estimated_time result) = js_round (estimated_time result))"
    if "\<not> tryThrows outcome"
    using that
    by (auto simp add: predictDeliveryTime_def tryThrows_def tryBlock_def counterText_def
        animation_cleared_at_end
        split: fetch_outcome.splits option.splits if_splits)
  from A B C show ?thesis
    by blast
qed

theorem predict_result_ranges_witness:
  "validRequest (Fin 5) (Fin 2) ''Clear'' ''Low'' \<and> tryThrows Rejected \<and> remoteFailed Rejected \<and>
   0 \<le> confidencePercent (predictDeliveryTime (Fin 5) (Fin 2) ''Clear'' ''Low'' Rejected 10) \<and>
   confidencePercent (predictDeliveryTime (Fin 5) (Fin 2) ''Clear'' ''Low'' Rejected 10) \<le> 100 \<and>
   js_le (Fin 0) (time (calculateDeliveryTime (Fin 5) ''Clear'' ''Low'' 10 (Fin 2))) \<and>
   \<not> tryThrows (Response True (Some \<lparr>success = True, estimated_time = Fin 30, api_confidence = 91,
     factors = Some \<lparr>weather_impact = Some ''Minimal'', traffic_impact = Some ''Minimal'',
       distance_factor = Some ''Medium'', peak_hour = Some ''No''\<rparr>\<rparr>)) \<and>
   confidencePercent (predictDeliveryTime (Fin 5) (Fin 2) ''Clear'' ''Low''
     (Response True (Some \<lparr>success = True, estimated_time = Fin 30, api_confidence = 91,
       factors = Some \<lparr>weather_impact = Some ''Minimal'', traffic_impact = Some ''Minimal'',
         distance_factor = Some ''Medium'', peak_hour = Some ''No''\<rparr>\<rparr>)) 10) = 91 \<and>
   snd (animateValue 128 (Fin 0) (Fin 30) (Fin 1000)) \<and>
   counterText 128 (Fin 30) = Fin 30"
proof -
  let ?r = "\<lparr>success = True, estimated_time = Fin 30, api_confidence = 91,
     factors = Some \<lparr>weather_impact = Some ''Minimal'', traffic_impact = Some ''Minimal'',
       distance_factor = Some ''Medium'', peak_hour = Some ''No''\<rparr>\<rparr>"
  have v: "validRequest (Fin 5) (Fin 2) ''Clear'' ''Low''"
    by (simp add: validRequest_def wholeNumber_def weatherSeverity_def trafficSeverity_def)
  have t: "tryThrows Rejected" and f: "remoteFailed Rejected"
    by (simp_all add: tryThrows_def tryBlock_def remoteFailed_def)
  have s: "\<not> tryThrows (Response True (Some ?r))"
    by (simp add: tryThrows_def tryBlock_def)
  have a: "snd (animateValue 128 (Fin 0) (Fin 30) (Fin 1000))"
    by (simp only: animation_clears_finite [of 30, simplified] snd_conv)
  from predict_result_ranges [OF v, of Rejected 10] t f
  have 1: "0 \<le> confidencePercent (predictDeliveryTime (Fin 5) (Fin 2) ''Clear'' ''Low'' Rejected 10)"
    and 2: "confidencePercent (predictDeliveryTime (Fin 5) (Fin 2) ''Clear'' ''Low'' Rejected 10) \<le> 100"
    and 3: "js_le (Fin 0) (time (calculateDeliveryTime (Fin 5) ''Clear'' ''Low'' 10 (Fin 2)))"
    by blast+
  from predict_result_ranges [OF v, of "Response True (Some ?r)" 10] s
  obtain result where r: "Response True (Some ?r) = Response True (Some result)"
    and 4: "confidencePercent (predictDeliveryTime (Fin 5) (Fin 2) ''Clear'' ''Low''
        (Response True (Some ?r)) 10) = api_confidence result"
    and 5: "\<forall>k. snd (animateValue k (Fin 0) (estimated_time result) (Fin 1000)) \<longrightarrow>
        counterText k (estimated_time result) = js_round (estimated_time result)"
    by blast
  from r have res: "result = ?r"
    by simp
  have 6: "confidencePercent (predictDeliveryTime (Fin 5) (Fin 2) ''Clear'' ''Low''
      (Response True (Some ?r)) 10) = 91"
    using 4 by (simp add: res)
  have "js_round (Fin 30) = Fin 30"
    using js_round_whole [of 30] by simp
  then have 7: "counterText 128 (Fin 30) = Fin 30"
    using 5 a by (simp add: res del: js_round.simps)
  from v t f 1 2 3 s 6 a 7 show ?thesis
    by (intro conjI)
qed

section \<open>The peak-hour surcharge\<close>

text \<open>
  Claim C6.  At an hour in \<open>{12, 13, 14, 19, 20, 21}\<close> the peak-hour tag is
  \<open>Yes (+15%)\<close> and the base time is the weather- and traffic-adjusted base time
  multiplied by 1.15; at any other hour the tag is \<open>No\<close> and the adjusted base time
  is used as it is.  The total is the rounded sum of preparation time and base time
  in both cases.
\<close>

theorem peak_hour_surcharge:
  assumes "hour \<in> {12, 13, 14, 19, 20, 21}" and "hour' \<notin> {12, 13, 14, 19, 20, 21}"
  shows "peakHour (calculateDeliveryTime distance weather traffic hour items) = ''Yes (+15%)'' \<and>
         peakHour (calculateDeliveryTime distance weather traffic hour' items) = ''No'' \<and>
         baseTime distance weather traffic hour' = adjustedBaseTime distance weather traffic \<and>
         baseTime distance weather traffic hour =
           js_mul (baseTime distance weather traffic hour') (fl 1.15) \<and>
         time (calculateDeliveryTime distance weather traffic hour' items) =
           js_round (js_add (prepTime items) (baseTime distance weather traffic hour')) \<and>
         time (calculateDeliveryTime distance weather traffic hour items) =
           js_round (js_add (prepTime items)
             (js_mul (baseTime distance weather traffic hour') (fl 1.15)))"
proof -
  have "isPeakHour hour" and "\<not> isPeakHour hour'"
    using assms by (simp_all add: isPeakHour_def)
  then show ?thesis
    by (simp add: calculateDeliveryTime_def totalTime_def baseTime_def)
qed

theorem peak_hour_surcharge_witness:
  "(20::int) \<in> {12, 13, 14, 19, 20, 21} \<and> (10::int) \<notin> {12, 13, 14, 19, 20, 21} \<and>
   peakHour (calculateDeliveryTime (Fin 12) ''Heavy Rain'' ''Very High'' 20 (Fin 3)) = ''Yes (+15%)'' \<and>
   peakHour (calculateDeliveryTime (Fin 12) ''Heavy Rain'' ''Very High'' 10 (Fin 3)) = ''No'' \<and>
   baseTime (Fin 12) ''Heavy Rain'' ''Very High'' 20 =
     js_mul (baseTime (Fin 12) ''Heavy Rain'' ''Very High'' 10) (fl 1.15)"
proof -
  have h1: "(20::int) \<in> {12, 13, 14, 19, 20, 21}" and h2: "(10::int) \<notin> {12, 13, 14, 19, 20, 21}"
    by simp_all
  from peak_hour_surcharge [OF h1 h2, of "Fin 12" "''Heavy Rain''" "''Very High''" "Fin 3"] h1 h2
  show ?thesis
    by blast
qed

end
